theory Spec2Isabelle
  imports Complex_Main
begin

unbundle bit_operations_syntax

section \<open>The sb8200 exporter: scraping an Arris cable modem\<close>

text \<open>
  A shallow embedding of the scrape pipeline of the exporter (the Go source with
  \<^verbatim>\<open>Login\<close>, \<^verbatim>\<open>ScrapeColStr\<close>, \<^verbatim>\<open>ScrapeUnitValue\<close>, the two table scanners,
  \<^verbatim>\<open>GetURL\<close> and \<^verbatim>\<open>Scrape\<close>).

  Modelling decisions:
  \<^item> A Go \<^verbatim>\<open>string\<close> is a byte sequence: \<^typ>\<open>string\<close>, one \<^typ>\<open>char\<close> per byte.
  \<^item> A \<^verbatim>\<open>float64\<close> is a value of \<open>float64\<close> below: a finite double carries the
    rational it stands for, and the negative zero, the two infinities and NaN are
    separate values. Every result of a conversion or of an operation is rounded
    to the nearest double, ties to even (\<open>round64\<close>).
  \<^item> A run-time panic is an outcome of its own (\<open>Panics\<close>), apart from the values
    that a function returns.
  \<^item> An \<^verbatim>\<open>error\<close> is a value of \<open>go_error\<close>; a function with a result and an error
    returns a sum, \<open>Inl\<close> carrying the error.
  \<^item> The standard library functions the source calls (\<^verbatim>\<open>strconv.ParseFloat\<close>,
    \<^verbatim>\<open>strings.TrimRight\<close>, \<^verbatim>\<open>regexp.Split\<close>) are written out here after the Go
    standard library; the network and the HTML selector engine are an explicit
    environment (see \<open>world\<close> and \<open>document\<close>).
\<close>

subsection \<open>Bytes\<close>

definition byte :: "char \<Rightarrow> nat" where
  "byte c = of_char c"

text \<open>\<^verbatim>\<open>func lower(c byte) byte { return c | ('x' - 'X') }\<close>, as a byte value.\<close>

definition lower :: "char \<Rightarrow> nat" where
  "lower c = byte c OR 32"

text \<open>\<^verbatim>\<open>'0' <= c && c <= '9'\<close>\<close>

definition is_digit :: "char \<Rightarrow> bool" where
  "is_digit c = (byte CHR ''0'' \<le> byte c \<and> byte c \<le> byte CHR ''9'')"

text \<open>\<^verbatim>\<open>'a' <= lower(c) && lower(c) <= 'f'\<close>\<close>

definition is_hex_letter :: "char \<Rightarrow> bool" where
  "is_hex_letter c = (byte CHR ''a'' \<le> lower c \<and> lower c \<le> byte CHR ''f'')"

subsection \<open>Values and errors\<close>

text \<open>
  \<open>Finite 0\<close> is the positive zero and \<open>NegZero\<close> the negative one; \<open>Finite q\<close> with
  \<open>q \<noteq> 0\<close> is the double of value \<open>q\<close>.
\<close>

datatype float64 = Finite rat | NegZero | PosInf | NegInf | NaN

datatype num_err = ErrSyntax | ErrRange

text \<open>
  \<open>ErrorString\<close> is \<^verbatim>\<open>errors.New\<close>; \<open>NumError f s e\<close> is \<^verbatim>\<open>&strconv.NumError{f, s, e}\<close>;
  \<open>TransportError\<close> stands for whatever \<^verbatim>\<open>net/http\<close>, \<^verbatim>\<open>io\<close> or the HTML parser
  report.
\<close>

datatype go_error =
    ErrorString string
  | NumError string string num_err
  | TransportError string

text \<open>
  Rounding to a double. \<open>bit_length n\<close> is the number of binary digits of \<open>n\<close>, and
  \<open>ilog2 a\<close> the exponent of the largest power of two that is at most \<open>a\<close>, for a
  positive \<open>a\<close>. A double has 53 significant bits and a smallest exponent of
  \<open>-1022\<close>, so the doubles around \<open>a\<close> are the multiples of \<open>2 ^ k\<close> for the \<open>k\<close> of
  \<open>round_magnitude\<close>, and \<open>a\<close> goes to the nearest of them, a tie to the even one.
  From \<open>2^1024 - 2^970\<close> on, half-way between the largest double and \<open>2^1024\<close>, the
  result is an infinity. A magnitude that rounds to zero keeps its sign.
\<close>

fun bit_length :: "nat \<Rightarrow> nat" where
  "bit_length n = (if n = 0 then 0 else Suc (bit_length (n div 2)))"

declare bit_length.simps [simp del]

definition ilog2 :: "rat \<Rightarrow> int" where
  "ilog2 a =
     (if 1 \<le> a then int (bit_length (nat \<lfloor>a\<rfloor>)) - 1
      else - int (bit_length (nat (\<lceil>1 / a\<rceil> - 1))))"

definition round_half_even :: "rat \<Rightarrow> int" where
  "round_half_even x =
     (let f = \<lfloor>x\<rfloor>; r = x - of_int f
      in if r < 1 / 2 then f
         else if 1 / 2 < r then f + 1
         else if even f then f else f + 1)"

definition round_magnitude :: "rat \<Rightarrow> rat" where
  "round_magnitude a =
     (if a = 0 then 0
      else let k = max (ilog2 a) (- 1022) - 52
           in of_int (round_half_even (a / 2 powi k)) * 2 powi k)"

definition overflow_bound :: rat where
  "overflow_bound = 2 ^ 1024 - 2 ^ 970"

definition round64 :: "bool \<Rightarrow> rat \<Rightarrow> float64" where
  "round64 negative a =
     (if overflow_bound \<le> a then (if negative then NegInf else PosInf)
      else let r = round_magnitude a
           in if r = 0 then (if negative then NegZero else Finite 0)
              else Finite (if negative then - r else r))"

text \<open>The sign bit of a double, whether it is finite, and its value when it is.\<close>

fun sign_bit :: "float64 \<Rightarrow> bool" where
  "sign_bit (Finite a) = (a < 0)"
| "sign_bit NegZero = True"
| "sign_bit NegInf = True"
| "sign_bit PosInf = False"
| "sign_bit NaN = False"

fun is_finite :: "float64 \<Rightarrow> bool" where
  "is_finite (Finite a) = True"
| "is_finite NegZero = True"
| "is_finite PosInf = False"
| "is_finite NegInf = False"
| "is_finite NaN = False"

fun exact :: "float64 \<Rightarrow> rat" where
  "exact (Finite a) = a"
| "exact NegZero = 0"
| "exact PosInf = 0"
| "exact NegInf = 0"
| "exact NaN = 0"

text \<open>
  Multiplication and addition of doubles: the exact result, rounded. A product
  has the sign of its factors, also when it is zero; zero times an infinity is
  NaN. A sum that is zero is the negative zero only when both terms are
  negative zeros; the sum of the two infinities is NaN.
\<close>

definition f64_mul :: "float64 \<Rightarrow> float64 \<Rightarrow> float64" where
  "f64_mul x y =
     (if x = NaN \<or> y = NaN then NaN
      else if is_finite x \<and> is_finite y
      then round64 (sign_bit x \<noteq> sign_bit y) (\<bar>exact x\<bar> * \<bar>exact y\<bar>)
      else if (is_finite x \<and> exact x = 0) \<or> (is_finite y \<and> exact y = 0) then NaN
      else if sign_bit x \<noteq> sign_bit y then NegInf else PosInf)"

definition f64_add :: "float64 \<Rightarrow> float64 \<Rightarrow> float64" where
  "f64_add x y =
     (if x = NaN \<or> y = NaN then NaN
      else if is_finite x \<and> is_finite y then
        (let s = exact x + exact y
         in if s = 0 then (if sign_bit x \<and> sign_bit y then NegZero else Finite 0)
            else round64 (s < 0) \<bar>s\<bar>)
      else if is_finite x then y
      else if is_finite y then x
      else if x = y then x else NaN)"

text \<open>\<^verbatim>\<open>x < 0\<close> on doubles: false for NaN and for both zeros.\<close>

fun f64_negative :: "float64 \<Rightarrow> bool" where
  "f64_negative (Finite a) = (a < 0)"
| "f64_negative NegZero = False"
| "f64_negative NegInf = True"
| "f64_negative PosInf = False"
| "f64_negative NaN = False"

subsection \<open>\<^verbatim>\<open>strconv.ParseFloat(s, 64)\<close>\<close>

text \<open>
  \<^verbatim>\<open>commonPrefixLenIgnoreCase(s, prefix)\<close>: the length of the longest common prefix,
  upper-case ASCII letters of \<open>s\<close> folded to lower case; \<open>prefix\<close> is lower case.
\<close>

definition fold_upper :: "char \<Rightarrow> nat" where
  "fold_upper c =
     (if byte CHR ''A'' \<le> byte c \<and> byte c \<le> byte CHR ''Z'' then byte c + 32 else byte c)"

fun commonPrefixLenIgnoreCase :: "string \<Rightarrow> string \<Rightarrow> nat" where
  "commonPrefixLenIgnoreCase (c # s) (p # prefix) =
     (if fold_upper c = byte p then Suc (commonPrefixLenIgnoreCase s prefix) else 0)"
| "commonPrefixLenIgnoreCase _ _ = 0"

text \<open>
  \<^verbatim>\<open>special(s)\<close>: the (possibly signed) infinities and NaN, with the number of
  bytes read. The branch for a sign falls through to the one for \<^verbatim>\<open>i\<close>.
\<close>

definition infinity_prefix :: "bool \<Rightarrow> nat \<Rightarrow> string \<Rightarrow> (float64 \<times> nat) option" where
  "infinity_prefix negative nsign s =
     (let n0 = commonPrefixLenIgnoreCase s ''infinity'';
          n = (if 3 < n0 \<and> n0 < 8 then 3 else n0)
      in if n = 3 \<or> n = 8
         then Some (if negative then NegInf else PosInf, nsign + n)
         else None)"

definition special :: "string \<Rightarrow> (float64 \<times> nat) option" where
  "special s =
     (case s of
        [] \<Rightarrow> None
      | c # cs \<Rightarrow>
          if c = CHR ''+'' \<or> c = CHR ''-'' then infinity_prefix (c = CHR ''-'') 1 cs
          else if c = CHR ''i'' \<or> c = CHR ''I'' then infinity_prefix False 0 s
          else if c = CHR ''n'' \<or> c = CHR ''N''
          then (if commonPrefixLenIgnoreCase s ''nan'' = 3 then Some (NaN, 3) else None)
          else None)"

text \<open>
  The digit loop of \<^verbatim>\<open>readFloat\<close>. \<open>mantissa\<close> collects every digit (the source
  keeps the first 19, or 16 hexadecimal ones, sets \<^verbatim>\<open>trunc\<close> and lets the slow
  path re-read the rest, to the same exact value); \<open>nd\<close> counts the digits after
  the leading zeros and \<open>dp\<close> is the position of the point among them.
\<close>

record scan =
  mantissa :: nat
  nd :: nat
  dp :: int
  sawdot :: bool
  sawdigits :: bool
  underscores :: bool

fun digits_loop :: "nat \<Rightarrow> string \<Rightarrow> scan \<Rightarrow> scan \<times> string" where
  "digits_loop base [] st = (st, [])"
| "digits_loop base (c # cs) st =
     (if c = CHR ''_'' then digits_loop base cs (st\<lparr>underscores := True\<rparr>)
      else if c = CHR ''.'' then
        (if sawdot st then (st, c # cs)
         else digits_loop base cs (st\<lparr>sawdot := True, dp := int (nd st)\<rparr>))
      else if is_digit c then
        (if c = CHR ''0'' \<and> nd st = 0
         then digits_loop base cs (st\<lparr>sawdigits := True, dp := dp st - 1\<rparr>)
         else digits_loop base cs
                (st\<lparr>sawdigits := True, nd := nd st + 1,
                    mantissa := mantissa st * base + (byte c - byte CHR ''0'')\<rparr>))
      else if base = 16 \<and> is_hex_letter c then
        digits_loop base cs
          (st\<lparr>sawdigits := True, nd := nd st + 1,
              mantissa := mantissa st * 16 + (lower c - byte CHR ''a'' + 10)\<rparr>)
      else (st, c # cs))"

text \<open>The exponent loop: digits and underscores; the exponent stops growing at 10000.\<close>

fun exp_loop :: "string \<Rightarrow> nat \<Rightarrow> bool \<Rightarrow> nat \<times> bool \<times> string" where
  "exp_loop [] e us = (e, us, [])"
| "exp_loop (c # cs) e us =
     (if is_digit c
      then exp_loop cs (if e < 10000 then e * 10 + (byte c - byte CHR ''0'') else e) us
      else if c = CHR ''_'' then exp_loop cs e True
      else (e, us, c # cs))"

text \<open>
  \<^verbatim>\<open>underscoreOK(s)\<close>: an underscore stands between two digits, or between a base
  prefix and a digit. \<open>saw\<close> is the last kind of character seen.
\<close>

datatype saw = SawStart | SawDigit | SawUnderscore | SawOther

fun underscore_loop :: "bool \<Rightarrow> saw \<Rightarrow> string \<Rightarrow> bool" where
  "underscore_loop hex sw [] = (sw \<noteq> SawUnderscore)"
| "underscore_loop hex sw (c # cs) =
     (if is_digit c \<or> (hex \<and> is_hex_letter c) then underscore_loop hex SawDigit cs
      else if c = CHR ''_'' then
        (if sw \<noteq> SawDigit then False else underscore_loop hex SawUnderscore cs)
      else if sw = SawUnderscore then False
      else underscore_loop hex SawOther cs)"

definition strip_sign :: "string \<Rightarrow> string" where
  "strip_sign s =
     (case s of [] \<Rightarrow> [] | c # cs \<Rightarrow> if c = CHR ''+'' \<or> c = CHR ''-'' then cs else s)"

definition underscoreOK :: "string \<Rightarrow> bool" where
  "underscoreOK s =
     (case strip_sign s of
        c0 # c1 # cs \<Rightarrow>
          if c0 = CHR ''0'' \<and>
             (lower c1 = byte CHR ''b'' \<or> lower c1 = byte CHR ''o'' \<or> lower c1 = byte CHR ''x'')
          then underscore_loop (lower c1 = byte CHR ''x'') SawDigit cs
          else underscore_loop False SawStart (c0 # c1 # cs)
      | s1 \<Rightarrow> underscore_loop False SawStart s1)"

text \<open>
  \<^verbatim>\<open>readFloat(s)\<close> in its three parts: the optional sign (\<open>readFloat\<close>), the optional
  \<^verbatim>\<open>0x\<close> and the digits (\<open>read_digits\<close>), and the optional exponent, required after a
  hexadecimal mantissa (\<open>read_exponent\<close>). The result is the mantissa, the exponent of the base
  (10, or 2 for a hexadecimal number), the sign, whether the number is
  hexadecimal, and the bytes left unread; \<open>None\<close> where the source returns
  \<^verbatim>\<open>ok = false\<close>.
\<close>

definition finish_float ::
  "string \<Rightarrow> scan \<Rightarrow> bool \<Rightarrow> bool \<Rightarrow> int \<Rightarrow> bool \<Rightarrow> string \<Rightarrow>
   (nat \<times> int \<times> bool \<times> bool \<times> string) option" where
  "finish_float s st neg hex dpoint us rest =
     (let ndMant = (if hex then int (nd st) * 4 else int (nd st));
          ex = (if mantissa st \<noteq> 0 then dpoint - ndMant else 0)
      in if us \<and> \<not> underscoreOK (take (length s - length rest) s) then None
         else Some (mantissa st, ex, neg, hex, rest))"

definition read_exponent ::
  "string \<Rightarrow> scan \<Rightarrow> bool \<Rightarrow> bool \<Rightarrow> int \<Rightarrow> string \<Rightarrow>
   (nat \<times> int \<times> bool \<times> bool \<times> string) option" where
  "read_exponent s st neg hex dpoint s3 =
     (case s3 of
        [] \<Rightarrow> if hex then None else finish_float s st neg hex dpoint (underscores st) s3
      | x # s4 \<Rightarrow>
          if lower x = byte (if hex then CHR ''p'' else CHR ''e'') then
            (case s4 of
               [] \<Rightarrow> None
             | y # ys \<Rightarrow>
                 let esign = (if y = CHR ''-'' then - 1 else (1::int));
                     s5 = (if y = CHR ''+'' \<or> y = CHR ''-'' then ys else s4)
                 in (case s5 of
                       [] \<Rightarrow> None
                     | d # ds \<Rightarrow>
                         if \<not> is_digit d then None
                         else
                           (case exp_loop s5 0 (underscores st) of
                              (e, us, s6) \<Rightarrow>
                                finish_float s st neg hex (dpoint + int e * esign) us s6)))
          else if hex then None
          else finish_float s st neg hex dpoint (underscores st) s3)"

definition read_digits ::
  "string \<Rightarrow> bool \<Rightarrow> string \<Rightarrow> (nat \<times> int \<times> bool \<times> bool \<times> string) option" where
  "read_digits s neg s1 =
     (let hex = (2 < length s1 \<and> s1 ! 0 = CHR ''0'' \<and> lower (s1 ! 1) = byte CHR ''x'');
          (st, s3) = digits_loop (if hex then 16 else 10) (if hex then drop 2 s1 else s1)
             \<lparr>mantissa = 0, nd = 0, dp = 0, sawdot = False, sawdigits = False,
              underscores = False\<rparr>
      in if \<not> sawdigits st then None
         else
           let dp1 = (if sawdot st then dp st else int (nd st));
               dp2 = (if hex then dp1 * 4 else dp1)
           in read_exponent s st neg hex dp2 s3)"

definition readFloat :: "string \<Rightarrow> (nat \<times> int \<times> bool \<times> bool \<times> string) option" where
  "readFloat s =
     (case s of
        [] \<Rightarrow> None
      | c # cs \<Rightarrow> read_digits s (c = CHR ''-'') (strip_sign s))"

text \<open>
  The magnitude of a number read: \<open>mantissa * base ^ exponent\<close>. A magnitude that
  rounds to an infinity is a range error; any other is rounded to the nearest
  double and takes the sign read.
\<close>

definition float_value :: "nat \<Rightarrow> int \<Rightarrow> bool \<Rightarrow> rat" where
  "float_value m ex hex = of_nat m * (if hex then 2 else 10) powi ex"

definition syntaxError :: "string \<Rightarrow> go_error" where
  "syntaxError s = NumError ''ParseFloat'' s ErrSyntax"

definition rangeError :: "string \<Rightarrow> go_error" where
  "rangeError s = NumError ''ParseFloat'' s ErrRange"

text \<open>
  \<^verbatim>\<open>ParseFloat(s, 64)\<close>: \<^verbatim>\<open>atof64\<close> reads a prefix, and a prefix shorter than \<open>s\<close> is a
  syntax error.
\<close>

definition ParseFloat :: "string \<Rightarrow> go_error + float64" where
  "ParseFloat s =
     (case special s of
        Some (v, n) \<Rightarrow> if n = length s then Inr v else Inl (syntaxError s)
      | None \<Rightarrow>
          (case readFloat s of
             None \<Rightarrow> Inl (syntaxError s)
           | Some (m, ex, neg, hex, rest) \<Rightarrow>
               if rest \<noteq> [] then Inl (syntaxError s)
               else if overflow_bound \<le> float_value m ex hex
               then Inl (rangeError s)
               else Inr (round64 neg (float_value m ex hex))))"

subsection \<open>\<^verbatim>\<open>strings.TrimRight\<close> and \<^verbatim>\<open>regexp.MustCompile(`\D+`).Split\<close>\<close>

text \<open>
  \<^verbatim>\<open>strings.TrimRight(s, cutset)\<close> removes every trailing character of \<open>s\<close> that
  occurs in \<open>cutset\<close>. The source's cutsets are ASCII, so a trailing byte is
  removed exactly when it is one of the cutset's bytes.
\<close>

definition TrimRight :: "string \<Rightarrow> string \<Rightarrow> string" where
  "TrimRight s cutset = rev (dropWhile (\<lambda>c. c \<in> set cutset) (rev s))"

text \<open>
  \<^verbatim>\<open>Split(s, -1)\<close> for the expression \<^verbatim>\<open>\D+\<close>: the pieces of \<open>s\<close> between the maximal
  runs of bytes that are not decimal digits. A run at the start or the end
  leaves an empty piece there, and the empty string gives one empty piece.
\<close>

function Split :: "string \<Rightarrow> string list" where
  "Split s =
     (let piece = takeWhile is_digit s; rest = dropWhile is_digit s
      in if rest = [] then [piece]
         else piece # Split (dropWhile (\<lambda>c. \<not> is_digit c) rest))"
  by pat_completeness auto
termination
proof (relation "measure length")
  show "wf (measure length)" by simp
next
  fix s :: string and piece rest
  assume r: "rest = dropWhile is_digit s" and ne: "rest \<noteq> []"
  have "length (dropWhile (\<lambda>c. \<not> is_digit c) rest) \<le> length rest"
    by (rule length_dropWhile_le)
  moreover have "length rest \<le> length s"
    unfolding r by (rule length_dropWhile_le)
  moreover have "\<not> is_digit (hd rest)"
    using ne unfolding r by (rule hd_dropWhile)
  then have "dropWhile (\<lambda>c. \<not> is_digit c) rest = dropWhile (\<lambda>c. \<not> is_digit c) (tl rest)"
    using ne by (cases rest) simp_all
  then have "length (dropWhile (\<lambda>c. \<not> is_digit c) rest) < length rest"
    using ne length_dropWhile_le [of "\<lambda>c. \<not> is_digit c" "tl rest"] by (cases rest) simp_all
  ultimately show "(dropWhile (\<lambda>c. \<not> is_digit c) rest, s) \<in> measure length"
    by simp
qed

declare Split.simps [simp del]

subsection \<open>The uptime loop of \<^verbatim>\<open>Scrape\<close>\<close>

text \<open>
  \<^verbatim>\<open>for i, nStr := range uptimeParts\<close>: each piece is parsed, the first failure
  returns, and the pieces 0 to 3 are days, hours, minutes and seconds; later
  pieces are parsed and ignored.
\<close>

fun uptime_loop :: "nat \<Rightarrow> string list \<Rightarrow> float64 \<Rightarrow> go_error + float64" where
  "uptime_loop i [] uptime = Inr uptime"
| "uptime_loop i (nStr # parts) uptime =
     (case ParseFloat nStr of
        Inl err \<Rightarrow> Inl err
      | Inr n \<Rightarrow>
          uptime_loop (Suc i) parts
            (if i = 0 then n
             else if i = 1 then f64_add (f64_mul uptime (Finite 24)) n
             else if i = 2 then f64_add (f64_mul uptime (Finite 60)) n
             else if i = 3 then f64_add (f64_mul uptime (Finite 60)) n
             else uptime))"

definition parse_uptime :: "string \<Rightarrow> go_error + float64" where
  "parse_uptime uptimeStr = uptime_loop 0 (Split uptimeStr) (Finite 0)"

subsection \<open>Table cells\<close>

text \<open>
  A table row (a \<^verbatim>\<open>tr\<close> selection) is described by what the selector engine
  answers for it: cell \<open>n\<close> of the list, counted from 1, is
  \<^verbatim>\<open>element.Find("td:nth-child(n)").First().Text()\<close>. A selection without a match
  has the empty text, so a missing cell and an empty cell are both the empty
  string, in the list or beyond its end.
\<close>

type_synonym row = "string list"

definition ScrapeColStr :: "row \<Rightarrow> nat \<Rightarrow> string" where
  "ScrapeColStr element child =
     (if 1 \<le> child \<and> child \<le> length element then element ! (child - 1) else [])"

definition ScrapeUnitValue :: "row \<Rightarrow> nat \<Rightarrow> string \<Rightarrow> go_error + float64" where
  "ScrapeUnitValue element child trim =
     (let valStr = TrimRight (ScrapeColStr element child) trim
      in case ParseFloat valStr of
           Inl err \<Rightarrow> Inl err
         | Inr valFloat \<Rightarrow> Inr valFloat)"

subsection \<open>Channel rows and tables\<close>

record DownstreamChannel =
  ChannelID :: string
  LockStatus :: float64
  Modulation :: string
  Frequency :: string
  Power :: float64
  SNR :: float64
  CorrectedErrors :: float64
  UncorrectableErrors :: float64

record UpstreamChannel =
  Channel :: string
  ChannelID :: string
  LockStatus :: float64
  USChannelType :: string
  Frequency :: string
  Width :: string
  Power :: float64

definition ScrapeDownstreamTableRow :: "row \<Rightarrow> go_error + DownstreamChannel" where
  "ScrapeDownstreamTableRow element =
     (if ScrapeColStr element 1 = ''Channel ID''
      then Inl (ErrorString ''skip parsing second header row'')
      else
        let lockStatus = (if ScrapeColStr element 2 = ''Locked'' then Finite 1 else Finite 0)
        in case ScrapeUnitValue element 5 '' dBmV'' of
             Inl err \<Rightarrow> Inl err
           | Inr powerLevel \<Rightarrow>
         (case ScrapeUnitValue element 6 '' dB'' of
             Inl err \<Rightarrow> Inl err
           | Inr snr \<Rightarrow>
         (case ScrapeUnitValue element 7 [] of
             Inl err \<Rightarrow> Inl err
           | Inr correctedErrors \<Rightarrow>
         (case ScrapeUnitValue element 8 [] of
             Inl err \<Rightarrow> Inl err
           | Inr uncorrectableErrors \<Rightarrow>
               Inr \<lparr>DownstreamChannel.ChannelID = ScrapeColStr element 1,
                    DownstreamChannel.LockStatus = lockStatus,
                    Modulation = ScrapeColStr element 3,
                    DownstreamChannel.Frequency = ScrapeColStr element 4,
                    DownstreamChannel.Power = powerLevel,
                    SNR = snr,
                    CorrectedErrors = correctedErrors,
                    UncorrectableErrors = uncorrectableErrors\<rparr>))))"

definition ScrapeUpstreamTableRow :: "row \<Rightarrow> go_error + UpstreamChannel" where
  "ScrapeUpstreamTableRow element =
     (let firstVal = ScrapeColStr element 1
      in if firstVal = ''Channel'' \<or> firstVal = []
         then Inl (ErrorString ''skip first two header row'')
         else
           let lockStatus = (if ScrapeColStr element 3 = ''Locked'' then Finite 1 else Finite 0)
           in case ScrapeUnitValue element 7 '' dBmV'' of
                Inl err \<Rightarrow> Inl err
              | Inr powerLevel \<Rightarrow>
                  Inr \<lparr>Channel = ScrapeColStr element 1,
                       UpstreamChannel.ChannelID = ScrapeColStr element 2,
                       UpstreamChannel.LockStatus = lockStatus,
                       USChannelType = ScrapeColStr element 4,
                       UpstreamChannel.Frequency = ScrapeColStr element 5,
                       Width = ScrapeColStr element 6,
                       UpstreamChannel.Power = powerLevel\<rparr>)"

text \<open>
  The log is part of the state: \<^verbatim>\<open>log.Debug(err)\<close> and \<^verbatim>\<open>log.Error(msg)\<close> append
  an entry.
\<close>

datatype log_entry = LogDebug go_error | LogError string

text \<open>
  \<^verbatim>\<open>element.Each(func ...)\<close> over the rows, in order: a row that fails is logged and
  left out, a row that parses is appended to the result.
\<close>

fun downstream_each ::
  "row list \<Rightarrow> DownstreamChannel list \<times> log_entry list \<Rightarrow>
   DownstreamChannel list \<times> log_entry list" where
  "downstream_each [] st = st"
| "downstream_each (element # rest) (downstreamChannels, lg) =
     (case ScrapeDownstreamTableRow element of
        Inl err \<Rightarrow> downstream_each rest (downstreamChannels, lg @ [LogDebug err])
      | Inr parsedRow \<Rightarrow> downstream_each rest (downstreamChannels @ [parsedRow], lg))"

definition ScrapeDownstreamTable :: "row list \<Rightarrow> DownstreamChannel list \<times> log_entry list" where
  "ScrapeDownstreamTable element = downstream_each element ([], [])"

fun upstream_each ::
  "row list \<Rightarrow> UpstreamChannel list \<times> log_entry list \<Rightarrow>
   UpstreamChannel list \<times> log_entry list" where
  "upstream_each [] st = st"
| "upstream_each (element # rest) (upstreamChannels, lg) =
     (case ScrapeUpstreamTableRow element of
        Inl err \<Rightarrow> upstream_each rest (upstreamChannels, lg @ [LogDebug err])
      | Inr parsedRow \<Rightarrow> upstream_each rest (upstreamChannels @ [parsedRow], lg))"

definition ScrapeUpstreamTable :: "row list \<Rightarrow> UpstreamChannel list \<times> log_entry list" where
  "ScrapeUpstreamTable element = upstream_each element ([], [])"

subsection \<open>The device: requests, responses and documents\<close>

text \<open>
  A parsed page is described by what the selector engine answers on it:
  \<open>Find sel\<close> is the list of the texts of the elements that the selector
  \<open>sel\<close> matches, in document order, and \<open>Tables\<close> lists, for every \<^verbatim>\<open>table\<close>
  element in document order, the rows that \<^verbatim>\<open>element.Find("tr")\<close> selects in it.
\<close>

record document =
  Find :: "string \<Rightarrow> string list"
  Tables :: "row list list"

text \<open>\<^verbatim>\<open>.First().Text()\<close>: the text of the first match, empty when nothing matches.\<close>

definition FirstText :: "string list \<Rightarrow> string" where
  "FirstText sel = (case sel of [] \<Rightarrow> [] | t # ts \<Rightarrow> t)"

record cookie =
  Name :: string
  Value :: string

text \<open>
  A request, with the field the source reads: \<^verbatim>\<open>req.Body\<close>, an interface value,
  \<open>None\<close> when it is nil.
\<close>

record request =
  URL :: string
  Body :: "string option"

text \<open>
  A response: the status code, the cookies of \<^verbatim>\<open>resp.Cookies()\<close>, the outcome of
  \<^verbatim>\<open>io.ReadAll(resp.Body)\<close> and the outcome of \<^verbatim>\<open>goquery.NewDocumentFromReader\<close> on
  the body. The body of a response is never nil, so the deferred
  \<^verbatim>\<open>resp.Body.Close()\<close> only releases it.
\<close>

record response =
  StatusCode :: int
  Cookies :: "cookie list"
  Body :: "go_error + string"
  Document :: "go_error + document"

text \<open>
  The world outside the program: \<open>ParseURL url\<close> is the error that
  \<^verbatim>\<open>http.NewRequest\<close> reports for the address \<open>url\<close>, if any, and \<open>Do url c\<close> is the
  outcome of \<^verbatim>\<open>client.Do\<close> for a GET of \<open>url\<close> carrying the cookie \<open>c\<close> (or none).
\<close>

record world =
  ParseURL :: "string \<Rightarrow> go_error option"
  Do :: "string \<Rightarrow> cookie option \<Rightarrow> go_error + response"

text \<open>
  \<^verbatim>\<open>http.NewRequest(http.MethodGet, url, nil)\<close>: the request is built from a nil
  body, and \<^verbatim>\<open>NewRequestWithContext\<close> leaves the \<^verbatim>\<open>Body\<close> of such a request nil.
\<close>

definition NewRequest :: "world \<Rightarrow> string \<Rightarrow> go_error + request" where
  "NewRequest w url =
     (case ParseURL w url of
        Some err \<Rightarrow> Inl err
      | None \<Rightarrow> Inr \<lparr>URL = url, request.Body = None\<rparr>)"

text \<open>
  What a call does: it returns, or it panics. A method called on a nil interface
  value is a nil dereference; \<^verbatim>\<open>defer req.Body.Close()\<close> evaluates the method value
  \<^verbatim>\<open>req.Body.Close\<close> when the \<^verbatim>\<open>defer\<close> statement is reached, so the panic is there and
  not at the end of the function. A panic is not recovered in the source.
\<close>

datatype 'a outcome = Returns 'a | Panics string

definition nil_dereference :: string where
  "nil_dereference = ''runtime error: invalid memory address or nil pointer dereference''"

record Exporter =
  Host :: string
  AuthToken :: string

subsection \<open>\<^verbatim>\<open>Login\<close>\<close>

text \<open>The addresses, as the \<^verbatim>\<open>fmt.Sprintf\<close> calls of the source build them.\<close>

definition logout_url :: "string \<Rightarrow> string" where
  "logout_url host = ''https://'' @ host @ ''/logout.html''"

definition login_url :: "string \<Rightarrow> string \<Rightarrow> string" where
  "login_url host authToken = ''https://'' @ host @ ''/cmconnectionstatus.html?login_'' @ authToken"

definition status_url :: "string \<Rightarrow> string \<Rightarrow> string" where
  "status_url host csrfToken = ''https://'' @ host @ ''/cmconnectionstatus.html?ct_'' @ csrfToken"

definition info_url :: "string \<Rightarrow> string \<Rightarrow> string" where
  "info_url host csrfToken = ''https://'' @ host @ ''/cmswinfo.html?ct_'' @ csrfToken"

text \<open>
  The three results of \<^verbatim>\<open>Login\<close> are kept as the source returns them: the session
  cookie (a pointer, \<open>None\<close> when nil), the token and the error (\<open>None\<close> when
  nil).

  \<open>login_result\<close> is the end of \<^verbatim>\<open>Login\<close>, from \<^verbatim>\<open>if resp.StatusCode == http.StatusOK\<close>
  on: what the function makes of the response to the login request.
\<close>

definition login_result :: "response \<Rightarrow> cookie option \<times> string \<times> go_error option" where
  "login_result resp =
     (if StatusCode resp = 200 then
        (case response.Body resp of
           Inl err \<Rightarrow> (None, [], Some err)
         | Inr body \<Rightarrow>
             (case find (\<lambda>c. Name c = ''sessionId'' \<and> Value c \<noteq> []) (Cookies resp) of
                Some c \<Rightarrow> (Some c, body, None)
              | None \<Rightarrow> (None, body, Some (ErrorString ''missing sessionID''))))
      else if StatusCode resp = 401
      then (None, [], Some (ErrorString ''invalid credentials''))
      else (None, [], Some (ErrorString ''unknown error/response code'')))"

text \<open>
  \<^verbatim>\<open>Login\<close>: the logout request is built, \<^verbatim>\<open>defer req.Body.Close()\<close> is reached with
  the body of that request, and only then the two requests are sent. The
  response to the logout request is dropped.
\<close>

definition Login ::
  "world \<Rightarrow> Exporter \<Rightarrow> (cookie option \<times> string \<times> go_error option) outcome" where
  "Login w e =
     (case NewRequest w (logout_url (Host e)) of
        Inl err \<Rightarrow> Returns (None, [], Some err)
      | Inr req \<Rightarrow>
          (case request.Body req of
             None \<Rightarrow> Panics nil_dereference
           | Some body \<Rightarrow>
               let url = login_url (Host e) (AuthToken e)
               in (case NewRequest w url of
                     Inl err \<Rightarrow> Returns (None, [], Some err)
                   | Inr req \<Rightarrow>
                       (case Do w url None of
                          Inl err \<Rightarrow> Returns (None, [], Some err)
                        | Inr resp \<Rightarrow> Returns (login_result resp)))))"

subsection \<open>\<^verbatim>\<open>GetURL\<close> and \<^verbatim>\<open>Scrape\<close>\<close>

text \<open>
  \<^verbatim>\<open>GetURL\<close>: the request is built, \<^verbatim>\<open>req.AddCookie(sessionID)\<close> reads the fields of
  the cookie (a nil dereference when the pointer is nil), and
  \<^verbatim>\<open>defer req.Body.Close()\<close> is reached before the request is sent.
\<close>

definition GetURL :: "world \<Rightarrow> string \<Rightarrow> cookie option \<Rightarrow> (go_error + document) outcome" where
  "GetURL w url sessionID =
     (case NewRequest w url of
        Inl err \<Rightarrow> Returns (Inl err)
      | Inr req \<Rightarrow>
          (case sessionID of
             None \<Rightarrow> Panics nil_dereference
           | Some c \<Rightarrow>
               (case request.Body req of
                  None \<Rightarrow> Panics nil_dereference
                | Some body \<Rightarrow>
                    (case Do w url (Some c) of
                       Inl err \<Rightarrow> Returns (Inl err)
                     | Inr resp \<Rightarrow> Returns (Document resp)))))"

record ArrisModem =
  Host :: string
  ConnectivityState :: float64
  Uptime :: float64
  HardwareVersion :: string
  SoftwareVersion :: string
  MACAddress :: string
  SerialNumber :: string
  DownstreamBondedChannels :: "DownstreamChannel list"
  UpstreamBondedChannels :: "UpstreamChannel list"

definition connectivityStateSelector :: string where
  "connectivityStateSelector =
     ''.content > center:nth-child(2) > table:nth-child(1) > tbody:nth-child(1) > tr:nth-child(4) > td:nth-child(2)''"

definition hwVerSelector :: string where
  "hwVerSelector =
     ''table.simpleTable:nth-child(2) > tbody:nth-child(1) > tr:nth-child(3) > td:nth-child(2)''"

definition swVerSelector :: string where
  "swVerSelector =
     ''table.simpleTable:nth-child(2) > tbody:nth-child(1) > tr:nth-child(4) > td:nth-child(2)''"

definition macAddrSelector :: string where
  "macAddrSelector =
     ''table.simpleTable:nth-child(2) > tbody:nth-child(1) > tr:nth-child(5) > td:nth-child(2)''"

definition serialSelector :: string where
  "serialSelector =
     ''table.simpleTable:nth-child(2) > tbody:nth-child(1) > tr:nth-child(6) > td:nth-child(2)''"

definition uptimeSelector :: string where
  "uptimeSelector =
     ''table.simpleTable:nth-child(5) > tbody:nth-child(1) > tr:nth-child(2) > td:nth-child(2)''"

text \<open>
  \<^verbatim>\<open>document.Find("table").Each\<close> with its \<^verbatim>\<open>switch i\<close>: the table of index 1 is the
  downstream table and the table of index 2 the upstream one; a page with fewer
  tables leaves the slice nil.
\<close>

definition scrape_tables ::
  "document \<Rightarrow> DownstreamChannel list \<times> UpstreamChannel list \<times> log_entry list" where
  "scrape_tables doc =
     (let (downstreamChannels, lg1) =
            (if 1 < length (Tables doc) then ScrapeDownstreamTable (Tables doc ! 1) else ([], []));
          (upstreamChannels, lg2) =
            (if 2 < length (Tables doc) then ScrapeUpstreamTable (Tables doc ! 2) else ([], []))
      in (downstreamChannels, upstreamChannels, lg1 @ lg2))"

text \<open>
  The statements of \<^verbatim>\<open>Scrape\<close> on the first page, between the two fetches: the
  connectivity state and the two channel tables, with the log entries written.
\<close>

definition scrape_status ::
  "document \<Rightarrow> float64 \<times> DownstreamChannel list \<times> UpstreamChannel list \<times> log_entry list" where
  "scrape_status doc =
     (let connectivityState =
            (if FirstText (Find doc connectivityStateSelector) = ''OK''
             then Finite 1 else Finite 0);
          (downstreamChannels, upstreamChannels, lg) = scrape_tables doc
      in (connectivityState, downstreamChannels, upstreamChannels, lg))"

text \<open>
  The statements of \<^verbatim>\<open>Scrape\<close> on the second page, after the second fetch: the
  version, address and serial number cells, the uptime loop, and the modem
  assembled from them and from what the first page gave.
\<close>

definition scrape_info ::
  "Exporter \<Rightarrow> float64 \<Rightarrow> DownstreamChannel list \<Rightarrow> UpstreamChannel list \<Rightarrow> log_entry list \<Rightarrow>
   document \<Rightarrow> (go_error + ArrisModem) \<times> log_entry list" where
  "scrape_info e connectivityState downstreamChannels upstreamChannels lg info =
     (let hwVersion = FirstText (Find info hwVerSelector);
          swVersion = FirstText (Find info swVerSelector);
          macAddress = FirstText (Find info macAddrSelector);
          serial = FirstText (Find info serialSelector);
          uptimeStr = FirstText (Find info uptimeSelector)
      in (case parse_uptime uptimeStr of
            Inl err \<Rightarrow> (Inl err, lg)
          | Inr uptime \<Rightarrow>
              (Inr \<lparr>ArrisModem.Host = Exporter.Host e,
                    ConnectivityState = connectivityState,
                    Uptime = uptime,
                    HardwareVersion = hwVersion,
                    SoftwareVersion = swVersion,
                    MACAddress = macAddress,
                    SerialNumber = serial,
                    DownstreamBondedChannels = downstreamChannels,
                    UpstreamBondedChannels = upstreamChannels\<rparr>, lg)))"

text \<open>
  \<^verbatim>\<open>Scrape\<close> returns the modem or the error, and the log entries it wrote, unless
  \<^verbatim>\<open>Login\<close> or \<^verbatim>\<open>GetURL\<close> panics, and then it panics.
\<close>

definition Scrape :: "world \<Rightarrow> Exporter \<Rightarrow> ((go_error + ArrisModem) \<times> log_entry list) outcome" where
  "Scrape w e =
     (case Login w e of
        Panics p \<Rightarrow> Panics p
      | Returns (sessionID, csrfToken, Some err) \<Rightarrow>
          Returns (Inl err, [LogError ''Failed to fetch login tokens''])
      | Returns (sessionID, csrfToken, None) \<Rightarrow>
          (case GetURL w (status_url (Exporter.Host e) csrfToken) sessionID of
             Panics p \<Rightarrow> Panics p
           | Returns (Inl err) \<Rightarrow>
               Returns (Inl err, [LogError ''Failed to fetch connection status url''])
           | Returns (Inr doc) \<Rightarrow>
               (case scrape_status doc of
                  (connectivityState, downstreamChannels, upstreamChannels, lg) \<Rightarrow>
                    (case GetURL w (info_url (Exporter.Host e) csrfToken) sessionID of
                       Panics p \<Rightarrow> Panics p
                     | Returns (Inl err) \<Rightarrow>
                         Returns (Inl err, lg @ [LogError ''Failed to fetch product information page''])
                     | Returns (Inr info) \<Rightarrow>
                         Returns (scrape_info e connectivityState downstreamChannels
                                    upstreamChannels lg info)))))"

text \<open>
  What \<^verbatim>\<open>Scrape\<close> makes of the two pages once both are fetched: the statements on
  the first page, then those on the second.
\<close>

definition scrape_pages ::
  "Exporter \<Rightarrow> document \<Rightarrow> document \<Rightarrow> (go_error + ArrisModem) \<times> log_entry list" where
  "scrape_pages e doc info =
     (case scrape_status doc of
        (connectivityState, downstreamChannels, upstreamChannels, lg) \<Rightarrow>
          scrape_info e connectivityState downstreamChannels upstreamChannels lg info)"

subsection \<open>Decimal numerals and an example device\<close>

text \<open>The number that a string of decimal digits denotes.\<close>

definition decimal :: "string \<Rightarrow> nat" where
  "decimal s = foldl (\<lambda>a c. a * 10 + (byte c - byte CHR ''0'')) 0 s"

text \<open>
  \<open>reads P cs rest\<close>: a scanning loop started on \<open>cs\<close> leaves \<open>rest\<close>, and every
  character it read satisfies \<open>P\<close>. \<open>number_end\<close> holds of the characters that a
  decimal mantissa or an exponent is made of, \<open>mantissa_char\<close> of those of a
  mantissa in the given base.
\<close>

definition reads :: "(char \<Rightarrow> bool) \<Rightarrow> string \<Rightarrow> string \<Rightarrow> bool" where
  "reads P cs rest = (\<exists>pre. cs = pre @ rest \<and> list_all P pre)"

definition number_end :: "char \<Rightarrow> bool" where
  "number_end c = (is_digit c \<or> c = CHR ''.'' \<or> c = CHR ''_'')"

definition mantissa_char :: "nat \<Rightarrow> char \<Rightarrow> bool" where
  "mantissa_char base c = (number_end c \<or> (base = 16 \<and> is_hex_letter c))"

text \<open>
  The seconds that the pieces of an uptime string stand for, as the loop of
  \<^verbatim>\<open>Scrape\<close> folds them: days, hours, minutes and seconds, where pieces that are
  missing are left out and pieces after the fourth do not count.
\<close>

fun uptime_seconds :: "nat list \<Rightarrow> nat" where
  "uptime_seconds [] = 0"
| "uptime_seconds [d] = d"
| "uptime_seconds [d, h] = d * 24 + h"
| "uptime_seconds [d, h, m] = (d * 24 + h) * 60 + m"
| "uptime_seconds (d # h # m # s # rest) = ((d * 24 + h) * 60 + m) * 60 + s"

text \<open>
  A device to answer the program: every address parses, the login answers
  with the given status, cookies and the token \<^verbatim>\<open>token\<close>, and the two pages are
  the given documents. The status page has the connectivity cell and three
  tables, the second and third being the channel tables; the information page has
  the version, address, serial number and uptime cells.
\<close>

definition example_exporter :: Exporter where
  "example_exporter = \<lparr>Exporter.Host = ''192.168.100.1'', AuthToken = ''YWRtaW46cGFzc3dvcmQ=''\<rparr>"

definition startup_table :: "row list" where
  "startup_table = [''Acquire Downstream Channel'', ''495000000 Hz'', ''Locked''] # []"

definition status_page :: "string list \<Rightarrow> row list \<Rightarrow> row list \<Rightarrow> document" where
  "status_page connectivity downstream upstream =
     \<lparr>Find = (\<lambda>sel. if sel = connectivityStateSelector then connectivity else []),
      Tables = [startup_table, downstream, upstream]\<rparr>"

definition info_page :: "string list \<Rightarrow> document" where
  "info_page uptime =
     \<lparr>Find = (\<lambda>sel. if sel = uptimeSelector then uptime
                    else if sel = hwVerSelector then [''6'']
                    else if sel = swVerSelector then [''AB01.02.053'']
                    else if sel = macAddrSelector then [''00:11:22:33:44:55'']
                    else if sel = serialSelector then [''4A2B7C'']
                    else []),
      Tables = []\<rparr>"

definition page_response :: "document \<Rightarrow> response" where
  "page_response doc = \<lparr>StatusCode = 200, Cookies = [], Body = Inr [], Document = Inr doc\<rparr>"

definition login_response :: "int \<Rightarrow> cookie list \<Rightarrow> response" where
  "login_response status cookies =
     \<lparr>StatusCode = status, Cookies = cookies, Body = Inr ''token'',
      Document = Inl (TransportError ''not a page'')\<rparr>"

definition example_world :: "response \<Rightarrow> document \<Rightarrow> document \<Rightarrow> world" where
  "example_world login status info =
     \<lparr>ParseURL = (\<lambda>url. None),
      Do = (\<lambda>url c.
              if url = login_url ''192.168.100.1'' ''YWRtaW46cGFzc3dvcmQ='' then Inr login
              else if url = status_url ''192.168.100.1'' ''token'' then Inr (page_response status)
              else if url = info_url ''192.168.100.1'' ''token'' then Inr (page_response info)
              else Inl (TransportError ''no such page''))\<rparr>"

definition session_cookie :: cookie where
  "session_cookie = \<lparr>Name = ''sessionId'', Value = ''0f3a9c''\<rparr>"

definition downstream_header :: row where
  "downstream_header =
     [''Channel ID'', ''Lock Status'', ''Modulation'', ''Frequency'', ''Power'', ''SNR/MER'',
      ''Corrected'', ''Uncorrectables'']"

definition downstream_row_1 :: row where
  "downstream_row_1 =
     [''1'', ''Locked'', ''QAM256'', ''495000000 Hz'', ''4.0 dBmV'', ''41.0 dB'', ''12'', ''0'']"

definition downstream_row_2 :: row where
  "downstream_row_2 =
     [''2'', ''Not Locked'', ''QAM256'', ''501000000 Hz'', ''3.5 dBmV'', ''40.5 dB'', ''7'', ''3'']"

definition upstream_header :: row where
  "upstream_header =
     [''Channel'', ''Channel ID'', ''Lock Status'', ''US Channel Type'', ''Frequency'', ''Width'',
      ''Power'']"

definition upstream_row_1 :: row where
  "upstream_row_1 =
     [''1'', ''3'', ''Locked'', ''SC-QAM Upstream'', ''22800000 Hz'', ''6400000 Hz'', ''42.0 dBmV'']"

text \<open>Rows with a power cell that is not a number, and one with a signed counter.\<close>

definition downstream_row_bad :: row where
  "downstream_row_bad =
     [''3'', ''Locked'', ''QAM256'', ''507000000 Hz'', ''n/a'', ''40.5 dB'', ''0'', ''0'']"

definition upstream_row_bad :: row where
  "upstream_row_bad =
     [''2'', ''4'', ''Locked'', ''SC-QAM Upstream'', ''29200000 Hz'', ''6400000 Hz'', ''-- dBmV'']"

definition downstream_row_negative :: row where
  "downstream_row_negative =
     [''3'', ''Locked'', ''QAM256'', ''507000000 Hz'', ''4.0 dBmV'', ''40.5 dB'', ''-5'', ''0'']"

section \<open>Properties\<close>

subsection \<open>Evaluation rules\<close>

lemma floor_rat_numeral: "\<lfloor>numeral a / numeral b :: rat\<rfloor> = numeral a div numeral b"
  using floor_divide_of_int_eq [of "numeral a" "numeral b", where ?'a = rat] by simp

lemma ceiling_rat_numeral: "\<lceil>numeral a / numeral b :: rat\<rceil> = - (- numeral a div numeral b)"
  using ceiling_divide_eq_div [of "numeral a" "numeral b", where ?'a = rat] by simp

lemmas round_eval =
  round64_def round_magnitude_def round_half_even_def ilog2_def overflow_bound_def
  bit_length.simps floor_rat_numeral ceiling_rat_numeral f64_mul_def f64_add_def Let_def

lemmas float_eval =
  is_digit_def byte_def lower_def is_hex_letter_def ParseFloat_def special_def
  infinity_prefix_def fold_upper_def readFloat_def read_digits_def read_exponent_def
  strip_sign_def finish_float_def
  underscoreOK_def float_value_def syntaxError_def rangeError_def round_eval

lemmas cell_eval = ScrapeColStr_def ScrapeUnitValue_def TrimRight_def

subsection \<open>The uptime string\<close>

text \<open>
  Claim C1, as the code has it. The uptime string \<^verbatim>\<open>40 days 05h:32m:52s.00\<close> is split
  on the runs of non-digits into the five pieces 40, 05, 32, 52 and 00; the
  first four are folded with the units 24, 60, 60 and the piece for the
  hundredths is dropped. The result is \<open>((40*24+5)*60+32)*60+52\<close> seconds, which is
  3475972.
\<close>

theorem uptime_example:
  "Split ''40 days 05h:32m:52s.00'' = [''40'', ''05'', ''32'', ''52'', ''00'']
   \<and> parse_uptime ''40 days 05h:32m:52s.00'' = Inr (Finite 3475972)
   \<and> (3475972 :: rat) = ((40 * 24 + 5) * 60 + 32) * 60 + 52"
  by (simp add: parse_uptime_def Split.simps float_eval)

text \<open>
  Claim C1 as stated gives 3479572 for the same string, which is neither what the
  code returns nor the value of the formula the claim gives.
\<close>

theorem uptime_example_counterexample:
  "parse_uptime ''40 days 05h:32m:52s.00'' \<noteq> Inr (Finite 3479572)"
  by (simp add: parse_uptime_def Split.simps float_eval)

subsection \<open>Rows\<close>

lemma ParseFloat_error_form:
  "ParseFloat s = Inl err \<Longrightarrow> err = syntaxError s \<or> err = rangeError s"
  by (auto simp: ParseFloat_def split: option.splits prod.splits if_splits)

lemma ScrapeUnitValue_ParseFloat:
  "ScrapeUnitValue element child trim = ParseFloat (TrimRight (ScrapeColStr element child) trim)"
  by (simp add: ScrapeUnitValue_def split: sum.splits)

lemma ScrapeUnitValue_not_ErrorString:
  "ScrapeUnitValue element child trim \<noteq> Inl (ErrorString msg)"
  using ParseFloat_error_form [of "TrimRight (ScrapeColStr element child) trim" "ErrorString msg"]
  by (auto simp: ScrapeUnitValue_ParseFloat syntaxError_def rangeError_def)

lemma downstream_row_header:
  "ScrapeColStr element 1 = ''Channel ID'' \<Longrightarrow>
   ScrapeDownstreamTableRow element = Inl (ErrorString ''skip parsing second header row'')"
  by (simp add: ScrapeDownstreamTableRow_def)

lemma downstream_row_data_error:
  "ScrapeColStr element 1 \<noteq> ''Channel ID'' \<Longrightarrow>
   ScrapeDownstreamTableRow element \<noteq> Inl (ErrorString msg)"
  using ScrapeUnitValue_not_ErrorString
  by (auto simp: ScrapeDownstreamTableRow_def Let_def split: sum.splits)

lemma upstream_row_header:
  "ScrapeColStr element 1 = ''Channel'' \<or> ScrapeColStr element 1 = [] \<Longrightarrow>
   ScrapeUpstreamTableRow element = Inl (ErrorString ''skip first two header row'')"
  by (auto simp add: ScrapeUpstreamTableRow_def)

lemma upstream_row_data_error:
  "ScrapeColStr element 1 \<noteq> ''Channel'' \<Longrightarrow> ScrapeColStr element 1 \<noteq> [] \<Longrightarrow>
   ScrapeUpstreamTableRow element \<noteq> Inl (ErrorString msg)"
  using ScrapeUnitValue_not_ErrorString
  by (auto simp: ScrapeUpstreamTableRow_def Let_def split: sum.splits)

text \<open>
  Claim C6. A downstream row is skipped as a header exactly when its first cell is
  \<^verbatim>\<open>Channel ID\<close>, and an upstream row exactly when its first cell is \<^verbatim>\<open>Channel\<close> or
  empty: the header error is returned in these cases and in no other, so a row
  with any other first cell is never taken for a header and a row with a header
  label is never parsed as data.
\<close>

theorem row_classification:
  "(ScrapeDownstreamTableRow element = Inl (ErrorString ''skip parsing second header row'')
      \<longleftrightarrow> ScrapeColStr element 1 = ''Channel ID'')
   \<and> (ScrapeUpstreamTableRow element = Inl (ErrorString ''skip first two header row'')
      \<longleftrightarrow> ScrapeColStr element 1 = ''Channel'' \<or> ScrapeColStr element 1 = [])"
  using downstream_row_header [of element] downstream_row_data_error [of element]
    upstream_row_header [of element] upstream_row_data_error [of element]
  by blast

lemma downstream_row_fields:
  assumes "ScrapeDownstreamTableRow element = Inr ch"
  shows "ScrapeColStr element 1 \<noteq> ''Channel ID''"
    and "DownstreamChannel.ChannelID ch = ScrapeColStr element 1"
    and "DownstreamChannel.LockStatus ch = (if ScrapeColStr element 2 = ''Locked'' then Finite 1 else Finite 0)"
    and "Modulation ch = ScrapeColStr element 3"
    and "DownstreamChannel.Frequency ch = ScrapeColStr element 4"
    and "ScrapeUnitValue element 5 '' dBmV'' = Inr (DownstreamChannel.Power ch)"
    and "ScrapeUnitValue element 6 '' dB'' = Inr (SNR ch)"
    and "ScrapeUnitValue element 7 [] = Inr (CorrectedErrors ch)"
    and "ScrapeUnitValue element 8 [] = Inr (UncorrectableErrors ch)"
  using assms
  by (auto simp: ScrapeDownstreamTableRow_def Let_def split: sum.splits if_splits)

lemma upstream_row_fields:
  assumes "ScrapeUpstreamTableRow element = Inr ch"
  shows "ScrapeColStr element 1 \<noteq> ''Channel''" and "ScrapeColStr element 1 \<noteq> []"
    and "Channel ch = ScrapeColStr element 1"
    and "UpstreamChannel.ChannelID ch = ScrapeColStr element 2"
    and "UpstreamChannel.LockStatus ch = (if ScrapeColStr element 3 = ''Locked'' then Finite 1 else Finite 0)"
    and "USChannelType ch = ScrapeColStr element 4"
    and "UpstreamChannel.Frequency ch = ScrapeColStr element 5"
    and "Width ch = ScrapeColStr element 6"
    and "ScrapeUnitValue element 7 '' dBmV'' = Inr (UpstreamChannel.Power ch)"
  using assms
  by (auto simp: ScrapeUpstreamTableRow_def Let_def split: sum.splits if_splits)

lemma downstream_each_eq:
  "downstream_each rows (chs, lg) =
     (chs @ map projr (filter (\<lambda>x. \<not> isl x) (map ScrapeDownstreamTableRow rows)),
      lg @ map (\<lambda>x. LogDebug (projl x)) (filter isl (map ScrapeDownstreamTableRow rows)))"
  by (induction rows arbitrary: chs lg) (auto split: sum.splits)

lemma upstream_each_eq:
  "upstream_each rows (chs, lg) =
     (chs @ map projr (filter (\<lambda>x. \<not> isl x) (map ScrapeUpstreamTableRow rows)),
      lg @ map (\<lambda>x. LogDebug (projl x)) (filter isl (map ScrapeUpstreamTableRow rows)))"
  by (induction rows arbitrary: chs lg) (auto split: sum.splits)

lemma ScrapeDownstreamTable_eq:
  "ScrapeDownstreamTable rows =
     (map projr (filter (\<lambda>x. \<not> isl x) (map ScrapeDownstreamTableRow rows)),
      map (\<lambda>x. LogDebug (projl x)) (filter isl (map ScrapeDownstreamTableRow rows)))"
  by (simp add: ScrapeDownstreamTable_def downstream_each_eq)

lemma ScrapeUpstreamTable_eq:
  "ScrapeUpstreamTable rows =
     (map projr (filter (\<lambda>x. \<not> isl x) (map ScrapeUpstreamTableRow rows)),
      map (\<lambda>x. LogDebug (projl x)) (filter isl (map ScrapeUpstreamTableRow rows)))"
  by (simp add: ScrapeUpstreamTable_def upstream_each_eq)

lemma downstream_channel_from_row:
  "ch \<in> set (fst (ScrapeDownstreamTable rows)) \<Longrightarrow>
   \<exists>element \<in> set rows. ScrapeDownstreamTableRow element = Inr ch"
  by (auto simp: ScrapeDownstreamTable_eq isl_def)

lemma upstream_channel_from_row:
  "ch \<in> set (fst (ScrapeUpstreamTable rows)) \<Longrightarrow>
   \<exists>element \<in> set rows. ScrapeUpstreamTableRow element = Inr ch"
  by (auto simp: ScrapeUpstreamTable_eq isl_def)

subsection \<open>The login\<close>

lemma find_None_sessionId:
  "find (\<lambda>c. Name c = ''sessionId'' \<and> Value c \<noteq> []) cs = None
   \<longleftrightarrow> \<not> (\<exists>c \<in> set cs. Name c = ''sessionId'' \<and> Value c \<noteq> [])"
  by (auto simp: find_None_iff)

lemma find_Some_sessionId:
  "find (\<lambda>c. Name c = ''sessionId'' \<and> Value c \<noteq> []) cs = Some c
   \<Longrightarrow> c \<in> set cs \<and> Name c = ''sessionId'' \<and> Value c \<noteq> []"
  by (auto simp: find_Some_iff)

text \<open>
  What the end of \<^verbatim>\<open>Login\<close> makes of a response: status 200 with a readable body
  and no \<^verbatim>\<open>sessionId\<close> cookie of non-empty value gives \<^verbatim>\<open>missing sessionID\<close>, status
  401 gives \<^verbatim>\<open>invalid credentials\<close>, any other status gives
  \<^verbatim>\<open>unknown error/response code\<close>, each without a session cookie; a session cookie
  comes without an error, on status 200, and is the first \<^verbatim>\<open>sessionId\<close> cookie of
  the response with a value that is not empty.
\<close>

lemma login_result_failures:
  "StatusCode resp = 200 \<Longrightarrow> response.Body resp = Inr body \<Longrightarrow>
   \<not> (\<exists>c \<in> set (Cookies resp). Name c = ''sessionId'' \<and> Value c \<noteq> []) \<Longrightarrow>
   login_result resp = (None, body, Some (ErrorString ''missing sessionID''))"
  "StatusCode resp = 401 \<Longrightarrow>
   login_result resp = (None, [], Some (ErrorString ''invalid credentials''))"
  "StatusCode resp \<noteq> 200 \<Longrightarrow> StatusCode resp \<noteq> 401 \<Longrightarrow>
   login_result resp = (None, [], Some (ErrorString ''unknown error/response code''))"
  using find_None_sessionId [of "Cookies resp"] by (auto simp: login_result_def)

lemma login_result_success:
  "StatusCode resp = 200 \<Longrightarrow> response.Body resp = Inr body \<Longrightarrow>
   find (\<lambda>c. Name c = ''sessionId'' \<and> Value c \<noteq> []) (Cookies resp) = Some c \<Longrightarrow>
   login_result resp = (Some c, body, None)"
  by (simp add: login_result_def)

lemma login_result_session:
  "fst (login_result resp) = Some c \<Longrightarrow>
   snd (snd (login_result resp)) = None \<and> StatusCode resp = 200
   \<and> c \<in> set (Cookies resp) \<and> Name c = ''sessionId'' \<and> Value c \<noteq> []"
  by (auto simp: login_result_def split: if_splits sum.splits option.splits
      dest: find_Some_sessionId)

text \<open>
  The request that \<^verbatim>\<open>http.NewRequest\<close> returns has no body, so \<^verbatim>\<open>Login\<close> stops at its
  \<^verbatim>\<open>defer req.Body.Close()\<close>: it returns only when the address of the logout
  request does not parse, and then with that error. \<^verbatim>\<open>GetURL\<close> stops in the same
  way, after the cookie is added.
\<close>

lemma NewRequest_Body: "NewRequest w url = Inr req \<Longrightarrow> request.Body req = None"
  by (auto simp: NewRequest_def split: option.splits)

lemma Login_outcome:
  "Login w e =
     (case ParseURL w (logout_url (Exporter.Host e)) of
        Some err \<Rightarrow> Returns (None, [], Some err)
      | None \<Rightarrow> Panics nil_dereference)"
  by (simp add: Login_def NewRequest_def split: option.splits)

lemma GetURL_outcome:
  "GetURL w url sessionID =
     (case ParseURL w url of
        Some err \<Rightarrow> Returns (Inl err)
      | None \<Rightarrow> Panics nil_dereference)"
  by (simp add: GetURL_def NewRequest_def split: option.splits)

lemma Scrape_outcome:
  "Scrape w e =
     (case ParseURL w (logout_url (Exporter.Host e)) of
        Some err \<Rightarrow> Returns (Inl err, [LogError ''Failed to fetch login tokens''])
      | None \<Rightarrow> Panics nil_dereference)"
  by (simp add: Scrape_def Login_outcome split: option.splits)

lemma Scrape_no_modem: "Scrape w e \<noteq> Returns (Inr m, lg)"
  by (simp add: Scrape_outcome split: option.splits)

text \<open>
  Claim C4, on the device of the example. The login request is never sent:
  whatever the device would answer (status 401, status 503, or status 200 with a
  \<^verbatim>\<open>sessionId\<close> cookie of empty value), \<^verbatim>\<open>Login\<close> panics at the deferred close of the
  logout request and returns neither an error nor a session.
\<close>

theorem Login_panics:
  "Login (example_world (login_response 401 [session_cookie])
            (status_page [] [] []) (info_page [])) example_exporter
     = Panics nil_dereference
   \<and> Login (example_world (login_response 503 [session_cookie])
            (status_page [] [] []) (info_page [])) example_exporter
     = Panics nil_dereference
   \<and> Login (example_world (login_response 200 [\<lparr>Name = ''sessionId'', Value = []\<rparr>])
            (status_page [] [] []) (info_page [])) example_exporter
     = Panics nil_dereference
   \<and> login_result (login_response 401 [session_cookie])
     = (None, [], Some (ErrorString ''invalid credentials''))"
  by (simp add: Login_def NewRequest_def example_world_def login_result_def login_response_def)

subsection \<open>The example device, evaluated\<close>

lemma url_distinct:
  "status_url ''192.168.100.1'' ''token'' \<noteq> login_url ''192.168.100.1'' ''YWRtaW46cGFzc3dvcmQ=''"
  "info_url ''192.168.100.1'' ''token'' \<noteq> login_url ''192.168.100.1'' ''YWRtaW46cGFzc3dvcmQ=''"
  "info_url ''192.168.100.1'' ''token'' \<noteq> status_url ''192.168.100.1'' ''token''"
  by (simp_all add: status_url_def login_url_def info_url_def)

lemma selector_distinct:
  "hwVerSelector \<noteq> uptimeSelector" "swVerSelector \<noteq> uptimeSelector"
  "macAddrSelector \<noteq> uptimeSelector" "serialSelector \<noteq> uptimeSelector"
  "swVerSelector \<noteq> hwVerSelector" "macAddrSelector \<noteq> hwVerSelector" "serialSelector \<noteq> hwVerSelector"
  "macAddrSelector \<noteq> swVerSelector" "serialSelector \<noteq> swVerSelector"
  "serialSelector \<noteq> macAddrSelector"
  by (simp_all add: hwVerSelector_def swVerSelector_def macAddrSelector_def serialSelector_def uptimeSelector_def)

lemma ex_rows:
  "ScrapeDownstreamTableRow downstream_header = Inl (ErrorString ''skip parsing second header row'')"
  "ScrapeDownstreamTableRow downstream_row_1 = Inr \<lparr>DownstreamChannel.ChannelID = ''1'', LockStatus = Finite 1, Modulation = ''QAM256'',
     Frequency = ''495000000 Hz'', Power = Finite 4, SNR = Finite 41, CorrectedErrors = Finite 12, UncorrectableErrors = Finite 0\<rparr>"
  "ScrapeDownstreamTableRow downstream_row_2 = Inr \<lparr>DownstreamChannel.ChannelID = ''2'', LockStatus = Finite 0, Modulation = ''QAM256'',
     Frequency = ''501000000 Hz'', Power = Finite (7/2), SNR = Finite (81/2), CorrectedErrors = Finite 7, UncorrectableErrors = Finite 3\<rparr>"
  "ScrapeUpstreamTableRow upstream_header = Inl (ErrorString ''skip first two header row'')"
  "ScrapeUpstreamTableRow upstream_row_1 = Inr \<lparr>Channel = ''1'', ChannelID = ''3'', LockStatus = Finite 1, USChannelType = ''SC-QAM Upstream'',
     Frequency = ''22800000 Hz'', Width = ''6400000 Hz'', Power = Finite 42\<rparr>"
  by (simp_all add: ScrapeDownstreamTableRow_def ScrapeUpstreamTableRow_def downstream_header_def downstream_row_1_def
     downstream_row_2_def upstream_header_def upstream_row_1_def cell_eval float_eval)

subsection \<open>The statements of \<^verbatim>\<open>Scrape\<close> on the two pages\<close>

lemma scrape_tables_eq:
  "scrape_tables doc =
     (if 1 < length (Tables doc) then fst (ScrapeDownstreamTable (Tables doc ! 1)) else [],
      if 2 < length (Tables doc) then fst (ScrapeUpstreamTable (Tables doc ! 2)) else [],
      (if 1 < length (Tables doc) then snd (ScrapeDownstreamTable (Tables doc ! 1)) else []) @
      (if 2 < length (Tables doc) then snd (ScrapeUpstreamTable (Tables doc ! 2)) else []))"
  by (simp add: scrape_tables_def split: prod.splits)

lemma scrape_status_eq:
  "scrape_status doc =
     (if FirstText (Find doc connectivityStateSelector) = ''OK'' then Finite 1 else Finite 0,
      fst (scrape_tables doc), fst (snd (scrape_tables doc)), snd (snd (scrape_tables doc)))"
  by (simp add: scrape_status_def Let_def split: prod.splits)

lemma scrape_info_eq:
  "scrape_info e connectivityState downstreamChannels upstreamChannels lg info =
     (case parse_uptime (FirstText (Find info uptimeSelector)) of
        Inl err \<Rightarrow> (Inl err, lg)
      | Inr uptime \<Rightarrow>
          (Inr \<lparr>ArrisModem.Host = Exporter.Host e,
                ConnectivityState = connectivityState,
                Uptime = uptime,
                HardwareVersion = FirstText (Find info hwVerSelector),
                SoftwareVersion = FirstText (Find info swVerSelector),
                MACAddress = FirstText (Find info macAddrSelector),
                SerialNumber = FirstText (Find info serialSelector),
                DownstreamBondedChannels = downstreamChannels,
                UpstreamBondedChannels = upstreamChannels\<rparr>, lg))"
  by (simp add: scrape_info_def Let_def)

lemma scrape_pages_eq:
  "fst (scrape_pages e doc info) =
     (case parse_uptime (FirstText (Find info uptimeSelector)) of
        Inl err \<Rightarrow> Inl err
      | Inr uptime \<Rightarrow>
          Inr \<lparr>ArrisModem.Host = Exporter.Host e,
               ConnectivityState =
                 (if FirstText (Find doc connectivityStateSelector) = ''OK''
                  then Finite 1 else Finite 0),
               Uptime = uptime,
               HardwareVersion = FirstText (Find info hwVerSelector),
               SoftwareVersion = FirstText (Find info swVerSelector),
               MACAddress = FirstText (Find info macAddrSelector),
               SerialNumber = FirstText (Find info serialSelector),
               DownstreamBondedChannels = fst (scrape_tables doc),
               UpstreamBondedChannels = fst (snd (scrape_tables doc))\<rparr>)"
  by (simp add: scrape_pages_def scrape_status_eq scrape_info_eq split: sum.splits prod.splits)

lemma scrape_pages_success:
  assumes "fst (scrape_pages e doc info) = Inr m"
  shows "DownstreamBondedChannels m = fst (scrape_tables doc)"
    and "UpstreamBondedChannels m = fst (snd (scrape_tables doc))"
    and "parse_uptime (FirstText (Find info uptimeSelector)) = Inr (Uptime m)"
  using assms unfolding scrape_pages_eq by (auto split: sum.splits)

lemma scrape_tables_downstream_row:
  "ch \<in> set (fst (scrape_tables doc)) \<Longrightarrow>
   1 < length (Tables doc) \<and> (\<exists>element \<in> set (Tables doc ! 1). ScrapeDownstreamTableRow element = Inr ch)"
  by (auto simp: scrape_tables_eq split: if_splits dest: downstream_channel_from_row)

lemma scrape_tables_upstream_row:
  "ch \<in> set (fst (snd (scrape_tables doc))) \<Longrightarrow>
   2 < length (Tables doc) \<and> (\<exists>element \<in> set (Tables doc ! 2). ScrapeUpstreamTableRow element = Inr ch)"
  by (auto simp: scrape_tables_eq split: if_splits dest: upstream_channel_from_row)

text \<open>
  Claim C10. The lock status of every channel record is 0 or 1: for a record that
  a row parser returns, downstream or upstream, and so for every record in the
  modem that the statements of \<^verbatim>\<open>Scrape\<close> assemble from the two pages, and for every
  record in a modem that \<^verbatim>\<open>Scrape\<close> returns. (The last part holds of every run, and
  no run gets that far, see \<open>Scrape_no_modem\<close>; the part on the two pages is the
  one that says what the records hold.)
\<close>

theorem lock_status_binary:
  "(ScrapeDownstreamTableRow element = Inr dch \<longrightarrow>
      DownstreamChannel.LockStatus dch = Finite 0 \<or> DownstreamChannel.LockStatus dch = Finite 1)
   \<and> (ScrapeUpstreamTableRow element = Inr uch \<longrightarrow>
      UpstreamChannel.LockStatus uch = Finite 0 \<or> UpstreamChannel.LockStatus uch = Finite 1)
   \<and> (fst (scrape_pages e doc info) = Inr m \<longrightarrow>
       (\<forall>ch \<in> set (DownstreamBondedChannels m).
          DownstreamChannel.LockStatus ch = Finite 0 \<or> DownstreamChannel.LockStatus ch = Finite 1)
       \<and> (\<forall>ch \<in> set (UpstreamBondedChannels m).
          UpstreamChannel.LockStatus ch = Finite 0 \<or> UpstreamChannel.LockStatus ch = Finite 1))
   \<and> (Scrape w e = Returns (Inr m', lg) \<longrightarrow>
       (\<forall>ch \<in> set (DownstreamBondedChannels m').
          DownstreamChannel.LockStatus ch = Finite 0 \<or> DownstreamChannel.LockStatus ch = Finite 1)
       \<and> (\<forall>ch \<in> set (UpstreamBondedChannels m').
          UpstreamChannel.LockStatus ch = Finite 0 \<or> UpstreamChannel.LockStatus ch = Finite 1))"
proof -
  have d: "DownstreamChannel.LockStatus ch = Finite 0 \<or> DownstreamChannel.LockStatus ch = Finite 1"
    if "ScrapeDownstreamTableRow r = Inr ch" for r ch
    using downstream_row_fields(3) [OF that] by simp
  have u: "UpstreamChannel.LockStatus ch = Finite 0 \<or> UpstreamChannel.LockStatus ch = Finite 1"
    if "ScrapeUpstreamTableRow r = Inr ch" for r ch
    using upstream_row_fields(5) [OF that] by simp
  have s: "(\<forall>ch \<in> set (DownstreamBondedChannels m).
          DownstreamChannel.LockStatus ch = Finite 0 \<or> DownstreamChannel.LockStatus ch = Finite 1)
       \<and> (\<forall>ch \<in> set (UpstreamBondedChannels m).
          UpstreamChannel.LockStatus ch = Finite 0 \<or> UpstreamChannel.LockStatus ch = Finite 1)"
    if "fst (scrape_pages e doc info) = Inr m"
  proof -
    note dd = scrape_pages_success(1) [OF that] and uu = scrape_pages_success(2) [OF that]
    show ?thesis
      unfolding dd uu
      using d u scrape_tables_downstream_row [of _ doc] scrape_tables_upstream_row [of _ doc]
      by blast
  qed
  have n: "Scrape w e \<noteq> Returns (Inr m', lg)"
    by (rule Scrape_no_modem)
  from d u s n show ?thesis by blast
qed

subsection \<open>Instances for the row headers\<close>

theorem row_classification_witness:
  "ScrapeColStr downstream_header 1 = ''Channel ID''
   \<and> ScrapeDownstreamTableRow downstream_header = Inl (ErrorString ''skip parsing second header row'')
   \<and> ScrapeColStr downstream_row_1 1 = ''1''
   \<and> ScrapeDownstreamTableRow downstream_row_1 \<noteq> Inl (ErrorString ''skip parsing second header row'')
   \<and> ScrapeColStr upstream_header 1 = ''Channel''
   \<and> ScrapeUpstreamTableRow upstream_header = Inl (ErrorString ''skip first two header row'')
   \<and> ScrapeColStr [] 1 = []
   \<and> ScrapeUpstreamTableRow [] = Inl (ErrorString ''skip first two header row'')
   \<and> ScrapeColStr upstream_row_1 1 = ''1''
   \<and> ScrapeUpstreamTableRow upstream_row_1 \<noteq> Inl (ErrorString ''skip first two header row'')"
  using row_classification [of downstream_header] row_classification [of downstream_row_1]
    row_classification [of upstream_header] row_classification [of "[]"]
    row_classification [of upstream_row_1]
  by (simp add: ScrapeColStr_def downstream_header_def downstream_row_1_def upstream_header_def
      upstream_row_1_def)

subsection \<open>Channel tables\<close>



subsection \<open>Tables of the example and the connectivity cell\<close>

lemmas example_rows = downstream_header_def downstream_row_1_def downstream_row_2_def
  upstream_header_def upstream_row_1_def downstream_row_bad_def upstream_row_bad_def
  downstream_row_negative_def

lemma ex_bad_rows:
  "ScrapeUnitValue downstream_row_bad 5 '' dBmV'' = Inl (NumError ''ParseFloat'' ''n/a'' ErrSyntax)"
  "ScrapeUnitValue upstream_row_bad 7 '' dBmV'' = Inl (NumError ''ParseFloat'' ''--'' ErrSyntax)"
  "ScrapeColStr downstream_row_bad 1 \<noteq> ''Channel ID''"
  "ScrapeColStr upstream_row_bad 1 \<noteq> ''Channel''" "ScrapeColStr upstream_row_bad 1 \<noteq> []"
  "ScrapeColStr downstream_header 1 = ''Channel ID''" "ScrapeColStr upstream_header 1 = ''Channel''"
  by (simp_all add: example_rows cell_eval float_eval)


lemma example_uptime: "parse_uptime ''40 days 05h:32m:52s.00'' = Inr (Finite 3475972)"
  by (simp add: parse_uptime_def Split.simps float_eval)

lemma example_info_uptime: "FirstText (Find (info_page [t]) uptimeSelector) = t"
  by (simp add: info_page_def FirstText_def)

lemma example_status_connectivity:
  "Find (status_page conn down up) connectivityStateSelector = conn"
  by (simp add: status_page_def)

lemma scrape_status_connectivity:
  "fst (scrape_status doc) =
     (if FirstText (Find doc connectivityStateSelector) = ''OK'' then Finite 1 else Finite 0)"
  "Find doc connectivityStateSelector = [] \<Longrightarrow> fst (scrape_status doc) = Finite 0"
  by (simp_all add: scrape_status_eq FirstText_def)

text \<open>
  Claim C7, on the device of the example. The statements on the first page give
  the connectivity state 1 for the text \<^verbatim>\<open>OK\<close> and 0 for any other text and for no
  match, but no run of \<^verbatim>\<open>Scrape\<close> reaches them: with a device that accepts the login
  and shows \<^verbatim>\<open>OK\<close>, \<^verbatim>\<open>Scrape\<close> panics in \<^verbatim>\<open>Login\<close>, at the deferred close of the logout
  request, and \<^verbatim>\<open>GetURL\<close> panics in the same way when called with the session
  cookie.
\<close>

theorem Scrape_panics:
  "Scrape (example_world (login_response 200 [session_cookie]) (status_page [''OK''] [] [])
      (info_page [''40 days 05h:32m:52s.00''])) example_exporter = Panics nil_dereference
   \<and> Scrape (example_world (login_response 200 [session_cookie]) (status_page [] [] [])
      (info_page [''40 days 05h:32m:52s.00''])) example_exporter = Panics nil_dereference
   \<and> GetURL (example_world (login_response 200 [session_cookie]) (status_page [''OK''] [] [])
      (info_page [''40 days 05h:32m:52s.00'']))
      (status_url (Exporter.Host example_exporter) ''token'') (Some session_cookie)
      = Panics nil_dereference
   \<and> fst (scrape_status (status_page [''OK''] [] [])) = Finite 1
   \<and> fst (scrape_status (status_page [] [] [])) = Finite 0"
  by (simp add: Scrape_def Login_def GetURL_def NewRequest_def example_world_def
      scrape_status_eq status_page_def FirstText_def)

subsection \<open>The two pages of the example device\<close>

lemma example_info_fields:
  "FirstText (Find (info_page ts) hwVerSelector) = ''6''"
  "FirstText (Find (info_page ts) swVerSelector) = ''AB01.02.053''"
  "FirstText (Find (info_page ts) macAddrSelector) = ''00:11:22:33:44:55''"
  "FirstText (Find (info_page ts) serialSelector) = ''4A2B7C''"
  by (simp_all add: info_page_def FirstText_def selector_distinct)

lemma example_status_tables:
  "scrape_tables (status_page conn down up) =
     (fst (ScrapeDownstreamTable down), fst (ScrapeUpstreamTable up),
      snd (ScrapeDownstreamTable down) @ snd (ScrapeUpstreamTable up))"
  by (simp add: scrape_tables_eq status_page_def)

lemma example_pages:
  "fst (scrape_pages example_exporter (status_page conn down up) (info_page [t])) =
     (case parse_uptime t of
        Inl err \<Rightarrow> Inl err
      | Inr uptime \<Rightarrow>
          Inr \<lparr>ArrisModem.Host = ''192.168.100.1'',
               ConnectivityState = (if FirstText conn = ''OK'' then Finite 1 else Finite 0),
               Uptime = uptime,
               HardwareVersion = ''6'',
               SoftwareVersion = ''AB01.02.053'',
               MACAddress = ''00:11:22:33:44:55'',
               SerialNumber = ''4A2B7C'',
               DownstreamBondedChannels = fst (ScrapeDownstreamTable down),
               UpstreamBondedChannels = fst (ScrapeUpstreamTable up)\<rparr>)"
  unfolding scrape_pages_eq
  by (cases "parse_uptime t")
    (simp_all add: example_info_uptime example_info_fields example_status_tables
      example_status_connectivity example_exporter_def)

lemma example_tables:
  "fst (ScrapeDownstreamTable [downstream_header, downstream_row_1, downstream_row_2])
     = [projr (ScrapeDownstreamTableRow downstream_row_1),
        projr (ScrapeDownstreamTableRow downstream_row_2)]"
  "fst (ScrapeUpstreamTable [upstream_header, upstream_row_1])
     = [projr (ScrapeUpstreamTableRow upstream_row_1)]"
  by (simp_all add: ScrapeDownstreamTable_eq ScrapeUpstreamTable_eq ex_rows)

theorem lock_status_binary_witness:
  "\<not> isl (fst (scrape_pages example_exporter
        (status_page [''OK''] [downstream_header, downstream_row_1, downstream_row_2]
           [upstream_header, upstream_row_1])
        (info_page [''40 days 05h:32m:52s.00''])))
   \<and> map DownstreamChannel.LockStatus (DownstreamBondedChannels (projr (fst (scrape_pages
        example_exporter
        (status_page [''OK''] [downstream_header, downstream_row_1, downstream_row_2]
           [upstream_header, upstream_row_1])
        (info_page [''40 days 05h:32m:52s.00'']))))) = [Finite 1, Finite 0]
   \<and> map UpstreamChannel.LockStatus (UpstreamBondedChannels (projr (fst (scrape_pages
        example_exporter
        (status_page [''OK''] [downstream_header, downstream_row_1, downstream_row_2]
           [upstream_header, upstream_row_1])
        (info_page [''40 days 05h:32m:52s.00'']))))) = [Finite 1]
   \<and> ScrapeColStr downstream_row_2 2 = ''Not Locked''
   \<and> DownstreamChannel.LockStatus (projr (ScrapeDownstreamTableRow downstream_row_2)) = Finite 0
   \<and> ScrapeColStr upstream_row_1 3 = ''Locked''
   \<and> UpstreamChannel.LockStatus (projr (ScrapeUpstreamTableRow upstream_row_1)) = Finite 1"
proof -
  let ?S = "fst (scrape_pages example_exporter
        (status_page [''OK''] [downstream_header, downstream_row_1, downstream_row_2]
           [upstream_header, upstream_row_1])
        (info_page [''40 days 05h:32m:52s.00'']))"
  have S: "?S = Inr (projr ?S)"
    by (simp add: example_pages example_uptime)
  have d: "ScrapeDownstreamTableRow downstream_row_2
      = Inr (projr (ScrapeDownstreamTableRow downstream_row_2))"
    by (simp add: ex_rows)
  have u: "ScrapeUpstreamTableRow upstream_row_1
      = Inr (projr (ScrapeUpstreamTableRow upstream_row_1))"
    by (simp add: ex_rows)
  note T = lock_status_binary [where e = example_exporter
        and doc = "status_page [''OK''] [downstream_header, downstream_row_1, downstream_row_2]
           [upstream_header, upstream_row_1]"
        and info = "info_page [''40 days 05h:32m:52s.00'']" and m = "projr ?S"
        and element = downstream_row_2
        and dch = "projr (ScrapeDownstreamTableRow downstream_row_2)"]
  note U = lock_status_binary [where element = upstream_row_1
        and uch = "projr (ScrapeUpstreamTableRow upstream_row_1)"]
  have 1: "\<not> isl ?S" by (simp add: example_pages example_uptime)
  have 2: "map DownstreamChannel.LockStatus (DownstreamBondedChannels (projr ?S)) = [Finite 1, Finite 0]"
    using T S by (simp add: example_pages example_uptime example_tables ex_rows)
  have 3: "map UpstreamChannel.LockStatus (UpstreamBondedChannels (projr ?S)) = [Finite 1]"
    by (simp add: example_pages example_uptime example_tables ex_rows)
  have 4: "ScrapeColStr downstream_row_2 2 = ''Not Locked''"
    "ScrapeColStr upstream_row_1 3 = ''Locked''"
    by (simp_all add: ScrapeColStr_def downstream_row_2_def upstream_row_1_def)
  have 5: "DownstreamChannel.LockStatus (projr (ScrapeDownstreamTableRow downstream_row_2)) = Finite 0"
    using T d by (simp add: ex_rows)
  have 6: "UpstreamChannel.LockStatus (projr (ScrapeUpstreamTableRow upstream_row_1)) = Finite 1"
    using U u by (simp add: ex_rows)
  from 1 2 3 4 5 6 show ?thesis by blast
qed

subsection \<open>Rounding\<close>

lemma bit_length_0: "bit_length 0 = 0"
  by (simp add: bit_length.simps)

lemma bit_length_pos: "0 < n \<Longrightarrow> bit_length n = Suc (bit_length (n div 2))"
  by (subst bit_length.simps) simp

lemma bit_length_bounds: "0 < n \<Longrightarrow> 2 ^ (bit_length n - 1) \<le> n \<and> n < 2 ^ bit_length n"
proof (induction n rule: bit_length.induct)
  case (1 n)
  show ?case
  proof (cases "n div 2 = 0")
    case True
    with 1(2) have "n = 1" by (simp add: div_eq_0_iff) 
    then show ?thesis by (simp add: bit_length_pos bit_length_0)
  next
    case False
    then have p: "0 < n div 2" by simp
    from 1(2) have n0: "n \<noteq> 0" by simp
    from "1.IH" [OF n0 p] have lo: "2 ^ (bit_length (n div 2) - 1) \<le> n div 2"
      and hi: "n div 2 < 2 ^ bit_length (n div 2)" by simp_all
    have bl: "bit_length n = Suc (bit_length (n div 2))" using 1(2) by (rule bit_length_pos)
    have blp: "0 < bit_length (n div 2)" using p by (simp add: bit_length_pos)
    have "2 ^ (bit_length n - 1) = 2 * 2 ^ (bit_length (n div 2) - 1)"
      using blp unfolding bl by (cases "bit_length (n div 2)") simp_all
    also have "\<dots> \<le> 2 * (n div 2)" using lo by simp
    also have "\<dots> \<le> n" by simp
    finally have a: "2 ^ (bit_length n - 1) \<le> n" .
    have "n < 2 * (n div 2) + 2" by presburger
    also have "\<dots> \<le> 2 * 2 ^ bit_length (n div 2)" using hi by simp
    finally have b: "n < 2 ^ bit_length n" unfolding bl by simp
    from a b show ?thesis by blast
  qed
qed

lemma bit_length_le: "0 < n \<Longrightarrow> n < 2 ^ k \<Longrightarrow> bit_length n \<le> k"
proof (rule ccontr)
  assume n: "0 < n" and lt: "n < 2 ^ k" and "\<not> bit_length n \<le> k"
  then have "k \<le> bit_length n - 1" by simp
  then have "(2::nat) ^ k \<le> 2 ^ (bit_length n - 1)" by (intro power_increasing) simp_all
  also have "\<dots> \<le> n" using bit_length_bounds [OF n] by blast
  finally show False using lt by simp
qed

lemma round_half_even_int: "round_half_even (of_int z) = z"
  by (simp add: round_half_even_def)

lemma ilog2_nat: "0 < n \<Longrightarrow> ilog2 (of_nat n) = int (bit_length n) - 1"
  by (simp add: ilog2_def)

lemma round_magnitude_nat:
  assumes "n < 2 ^ 53"
  shows "round_magnitude (of_nat n) = of_nat n"
proof (cases "n = 0")
  case True
  then show ?thesis by (simp add: round_magnitude_def)
next
  case False
  then have n: "0 < n" by simp
  define b where "b = bit_length n"
  have b53: "b \<le> 53" unfolding b_def using n assms by (rule bit_length_le)
  have bpos: "0 < b" unfolding b_def using n by (simp add: bit_length_pos)
  define j where "j = 53 - b"
  have k: "max (ilog2 (of_nat n)) (- 1022) - 52 = - int j"
    using b53 bpos by (simp add: ilog2_nat [OF n] b_def [symmetric] j_def)
  have p: "(2::rat) powi (- int j) = 1 / 2 ^ j"
    by (simp add: power_int_minus divide_simps)
  have q: "(of_nat n :: rat) / 2 powi (- int j) = of_int (int n * 2 ^ j)"
    unfolding p by simp
  have "round_magnitude (of_nat n) = of_int (round_half_even (of_nat n / 2 powi (- int j))) * 2 powi (- int j)"
    using False by (simp add: round_magnitude_def Let_def k)
  also have "\<dots> = of_int (round_half_even (of_int (int n * 2 ^ j))) * 2 powi (- int j)"
    by (simp only: q)
  also have "\<dots> = of_int (int n * 2 ^ j) * 2 powi (- int j)"
    by (simp only: round_half_even_int)
  also have "\<dots> = of_nat n" by (simp add: p)
  finally show ?thesis .
qed

lemma overflow_bound_large: "2 ^ 53 \<le> overflow_bound"
  by (simp add: overflow_bound_def)

lemma round64_nat:
  assumes "n < 2 ^ 53"
  shows "round64 False (of_nat n) = Finite (of_nat n)"
proof -
  have "(of_nat n :: rat) < 2 ^ 53"
    using assms by (metis of_nat_less_iff of_nat_numeral of_nat_power)
  with overflow_bound_large have "\<not> overflow_bound \<le> of_nat n" by simp
  then show ?thesis
    by (simp add: round64_def round_magnitude_nat [OF assms] Let_def)
qed

lemma round_half_even_nonneg: "0 \<le> x \<Longrightarrow> 0 \<le> round_half_even x"
  by (auto simp: round_half_even_def Let_def intro: add_nonneg_nonneg)

lemma round_magnitude_nonneg:
  assumes "0 \<le> a"
  shows "0 \<le> round_magnitude a"
proof (cases "a = 0")
  case True
  then show ?thesis by (simp add: round_magnitude_def)
next
  case False
  define k where "k = max (ilog2 a) (- 1022) - 52"
  have p: "(0::rat) < 2 powi k" by (intro zero_less_power_int) simp
  then have "0 \<le> a / 2 powi k" using assms by simp
  then have "0 \<le> round_half_even (a / 2 powi k)" by (rule round_half_even_nonneg)
  then have "(0::rat) \<le> of_int (round_half_even (a / 2 powi k)) * 2 powi k"
    using p by (intro mult_nonneg_nonneg) simp_all
  then show ?thesis using False by (simp add: round_magnitude_def Let_def k_def)
qed

text \<open>
  A rounded number is negative exactly when it has the minus sign and does not
  round to zero; without the sign it is a finite number that is not negative.
\<close>

lemma round64_sign:
  assumes "0 \<le> a" and "\<not> overflow_bound \<le> a"
  shows "f64_negative (round64 negative a) \<longleftrightarrow> negative \<and> round64 negative a \<noteq> NegZero"
    and "round64 False a = Finite (round_magnitude a)"
proof -
  note nn = round_magnitude_nonneg [OF assms(1)]
  show "f64_negative (round64 negative a) \<longleftrightarrow> negative \<and> round64 negative a \<noteq> NegZero"
    using nn assms(2) by (cases "round_magnitude a = 0") (auto simp: round64_def Let_def)
  show "round64 False a = Finite (round_magnitude a)"
    using assms(2) by (simp add: round64_def Let_def)
qed

lemma f64_mul_nat:
  assumes "a * b < 2 ^ 53"
  shows "f64_mul (Finite (of_nat a)) (Finite (of_nat b)) = Finite (of_nat (a * b))"
proof -
  have "f64_mul (Finite (of_nat a)) (Finite (of_nat b)) = round64 False (of_nat (a * b))"
    by (simp add: f64_mul_def)
  then show ?thesis using round64_nat [OF assms] by simp
qed

lemma f64_add_nat:
  assumes "a + b < 2 ^ 53"
  shows "f64_add (Finite (of_nat a)) (Finite (of_nat b)) = Finite (of_nat (a + b))"
proof (cases "a + b = 0")
  case True
  then show ?thesis by (simp add: f64_add_def)
next
  case False
  then have "f64_add (Finite (of_nat a)) (Finite (of_nat b)) = round64 False (of_nat (a + b))"
    by (auto simp: f64_add_def Let_def)
  then show ?thesis using round64_nat [OF assms] by simp
qed

text \<open>
  Numbers at the edges: a number too small for a double keeps its sign as a zero,
  a decimal that is not a double goes to the nearest one, an integer above
  \<open>2^53\<close> is rounded to even, the smallest double is \<open>2^-1074\<close>, and a number above
  the largest double is a range error.
\<close>

lemma ParseFloat_rounding_examples:
  "ParseFloat ''-1e-400'' = Inr NegZero"
  "ParseFloat ''-0'' = Inr NegZero"
  "ParseFloat ''0.1'' = Inr (Finite (3602879701896397 / 2 ^ 55))"
  "ParseFloat ''9007199254740993'' = Inr (Finite 9007199254740992)"
  "ParseFloat ''4e-324'' = Inr (Finite (1 / 2 ^ 1074))"
  "ParseFloat ''1e309'' = Inl (NumError ''ParseFloat'' ''1e309'' ErrRange)"
  by (simp_all add: float_eval)

lemma uptime_rounding_examples:
  "parse_uptime ''9007199254740993'' = Inr (Finite 9007199254740992)"
  "parse_uptime ''9007199254740991 01'' = Inr (Finite 216172782113783776)"
  by (simp_all add: parse_uptime_def Split.simps float_eval)

text \<open>
  Operations at the edges: the sign of a zero product, the sum of zeros, and the
  infinities. A product too large for a double is an infinity and no error, so
  the hours step of the uptime loop on \<open>2^1023\<close> days gives the positive infinity.
\<close>

lemma f64_edge_examples:
  "f64_mul (Finite 0) (Finite (- 5)) = NegZero"
  "f64_mul NegZero (Finite (- 5)) = Finite 0"
  "f64_add NegZero NegZero = NegZero"
  "f64_add NegZero (Finite 0) = Finite 0"
  "f64_add (Finite 5) (Finite (- 5)) = Finite 0"
  "f64_mul PosInf (Finite 24) = PosInf"
  "f64_mul NegInf (Finite 24) = NegInf"
  "f64_mul PosInf (Finite 0) = NaN"
  "f64_add PosInf (Finite 7) = PosInf"
  "f64_add PosInf NegInf = NaN"
  "f64_add NaN (Finite 1) = NaN"
  "f64_mul (Finite (2 ^ 1023)) (Finite 24) = PosInf"
  by (simp_all add: round_eval)

lemma uptime_overflow_example:
  "uptime_loop 1 [''05''] (Finite (2 ^ 1023)) = Inr PosInf"
  by (simp add: float_eval)

subsection \<open>Parsing strings of digits\<close>

lemma digit_byte_cases:
  assumes "is_digit c"
  shows "byte c \<in> {48, 49, 50, 51, 52, 53, 54, 55, 56, 57}"
proof -
  from assms have "48 \<le> byte c" "byte c \<le> 57"
    by (simp_all add: is_digit_def byte_def)
  then show ?thesis by (simp only: insert_iff empty_iff) arith
qed

lemma lower_digit: "is_digit c \<Longrightarrow> lower c = byte c"
  using digit_byte_cases [of c] by (auto simp: lower_def)

lemma digit_not_literal:
  assumes "is_digit c"
  shows "c \<noteq> CHR ''_''" "c \<noteq> CHR ''.''" "c \<noteq> CHR ''+''" "c \<noteq> CHR ''-''"
    "c \<noteq> CHR ''i''" "c \<noteq> CHR ''I''" "c \<noteq> CHR ''n''" "c \<noteq> CHR ''N''"
  using assms by (auto simp: is_digit_def byte_def)

lemma digit_not_letter:
  assumes "is_digit c"
  shows "lower c \<noteq> byte CHR ''x''" "lower c \<noteq> byte CHR ''e''" "lower c \<noteq> byte CHR ''p''"
    "\<not> is_hex_letter c"
  using assms lower_digit [OF assms]
  by (auto simp: is_digit_def is_hex_letter_def byte_def)

lemma special_digit: "is_digit c \<Longrightarrow> special (c # cs) = None"
  using digit_not_literal [of c] by (simp add: special_def)

lemma special_Nil: "special [] = None"
  by (simp add: special_def)

lemma ParseFloat_Nil: "ParseFloat [] = Inl (syntaxError [])"
  by (simp add: ParseFloat_def special_def readFloat_def)


text \<open>The digit loop on a string of decimal digits reads all of it.\<close>

lemma digits_loop_digits:
  assumes "\<forall>c \<in> set cs. is_digit c" and "nd st = 0 \<longrightarrow> mantissa st = 0"
  shows "snd (digits_loop 10 cs st) = []"
    and "mantissa (fst (digits_loop 10 cs st))
         = foldl (\<lambda>a c. a * 10 + (byte c - byte CHR ''0'')) (mantissa st) cs"
    and "sawdot (fst (digits_loop 10 cs st)) = sawdot st"
    and "underscores (fst (digits_loop 10 cs st)) = underscores st"
    and "sawdigits (fst (digits_loop 10 cs st)) = (sawdigits st \<or> cs \<noteq> [])"
  using assms
proof (induction cs arbitrary: st)
  case Nil
  {
    case 1 show ?case by simp
  next
    case 2 show ?case by simp
  next
    case 3 show ?case by simp
  next
    case 4 show ?case by simp
  next
    case 5 show ?case by simp
  }
next
  case (Cons c cs)
  {
    case 1
    then show ?case
      using Cons.IH(1) digit_not_literal(1,2) [of c] by simp
  next
    case 2
    then show ?case
      using Cons.IH(2) digit_not_literal(1,2) [of c] by (simp add: byte_def)
  next
    case 3
    then show ?case
      using Cons.IH(3) digit_not_literal(1,2) [of c] by simp
  next
    case 4
    then show ?case
      using Cons.IH(4) digit_not_literal(1,2) [of c] by simp
  next
    case 5
    then show ?case
      using Cons.IH(5) digit_not_literal(1,2) [of c] by simp
  }
qed

lemma decimal_foldl: "decimal s = foldl (\<lambda>a c. a * 10 + (byte c - byte CHR ''0'')) 0 s"
  by (simp add: decimal_def)

lemma readFloat_digits:
  assumes "s \<noteq> []" and "\<forall>c \<in> set s. is_digit c"
  shows "readFloat s = Some (decimal s, 0, False, False, [])"
proof -
  from assms obtain c cs where s: "s = c # cs" by (cases s) auto
  have c: "is_digit c" using assms(2) s by simp
  have strip: "strip_sign s = s"
    using digit_not_literal(3,4) [OF c] by (simp add: strip_sign_def s)
  have nohex: "\<not> (2 < length s \<and> s ! 0 = CHR ''0'' \<and> lower (s ! 1) = byte CHR ''x'')"
  proof
    assume h: "2 < length s \<and> s ! 0 = CHR ''0'' \<and> lower (s ! 1) = byte CHR ''x''"
    then have "s ! 1 \<in> set s" by (intro nth_mem) simp
    with assms(2) have "is_digit (s ! 1)" by blast
    from digit_not_letter(1) [OF this] h show False by blast
  qed
  let ?st0 = "\<lparr>mantissa = 0, nd = 0, dp = 0, sawdot = False, sawdigits = False,
                  underscores = False\<rparr>"
  obtain st' rest where dl: "digits_loop 10 s ?st0 = (st', rest)"
    by (cases "digits_loop 10 s ?st0") auto
  have inv: "nd ?st0 = 0 \<longrightarrow> mantissa ?st0 = 0" by simp
  note D = digits_loop_digits [OF assms(2) inv]
  have rest: "rest = []" using D(1) dl by simp
  have m: "mantissa st' = decimal s" using D(2) dl by (simp add: decimal_foldl)
  have flags: "\<not> sawdot st'" "\<not> underscores st'" "sawdigits st'"
    using D(3,4,5) dl assms(1) by simp_all
  have "readFloat s = read_digits s False s"
    using strip digit_not_literal(4) [OF c] by (simp add: readFloat_def s)
  also have "\<dots> = read_exponent s st' False False (int (nd st')) []"
    unfolding read_digits_def eq_False [THEN iffD2, OF nohex] Let_def if_False dl
    using rest flags by simp
  also have "\<dots> = Some (decimal s, 0, False, False, [])"
    using flags m by (simp add: read_exponent_def finish_float_def)
  finally show ?thesis .
qed

lemma ParseFloat_digits:
  assumes "s \<noteq> []" and "\<forall>c \<in> set s. is_digit c"
  shows "ParseFloat s =
     (if overflow_bound \<le> of_nat (decimal s) then Inl (rangeError s)
      else Inr (round64 False (of_nat (decimal s))))"
proof -
  from assms obtain c cs where s: "s = c # cs" by (cases s) auto
  have "special s = None"
    using special_digit [of c cs] assms(2) s by simp
  then show ?thesis
    using readFloat_digits [OF assms] by (simp add: ParseFloat_def float_value_def)
qed

subsection \<open>The pieces of the uptime string\<close>

lemma Split_all_digits: "Split s = [s]" if "\<forall>c \<in> set s. is_digit c"
  using that by (subst Split.simps) simp

lemma Split_unfold:
  "Split s =
     (if dropWhile is_digit s = [] then [takeWhile is_digit s]
      else takeWhile is_digit s # Split (dropWhile (\<lambda>c. \<not> is_digit c) (dropWhile is_digit s)))"
  by (subst Split.simps) (simp only: Let_def)

lemma Split_rest:
  assumes "dropWhile is_digit s \<noteq> []"
  shows "Split s = takeWhile is_digit s # Split (dropWhile (\<lambda>c. \<not> is_digit c) (dropWhile is_digit s))"
  using Split_unfold [of s] assms by (simp only: if_False)

lemma Split_pieces_digits: "p \<in> set (Split s) \<Longrightarrow> c \<in> set p \<Longrightarrow> is_digit c"
proof (induction s arbitrary: p rule: Split.induct)
  case (1 s)
  show ?case
  proof (cases "dropWhile is_digit s = []")
    case True
    then have "Split s = [s]" by (simp add: Split_all_digits)
    with 1(2,3) True show ?thesis by simp
  next
    case False
    from 1(2) Split_rest [OF False]
    consider "p = takeWhile is_digit s"
      | "p \<in> set (Split (dropWhile (\<lambda>c. \<not> is_digit c) (dropWhile is_digit s)))"
      by auto
    then show ?thesis
    proof cases
      case 1
      with \<open>c \<in> set p\<close> show ?thesis by (auto dest: set_takeWhileD)
    next
      case 2
      from "1.IH" [OF refl refl False 2 \<open>c \<in> set p\<close>] show ?thesis .
    qed
  qed
qed

lemma Split_empty_piece:
  "[] \<in> set (Split s) \<longleftrightarrow> s = [] \<or> \<not> is_digit (hd s) \<or> \<not> is_digit (last s)"
proof (induction s rule: Split.induct)
  case (1 s)
  show ?case
  proof (cases "dropWhile is_digit s = []")
    case True
    then have all: "\<forall>c \<in> set s. is_digit c" by simp
    then have "Split s = [s]" by (rule Split_all_digits)
    moreover have "s \<noteq> [] \<Longrightarrow> is_digit (hd s) \<and> is_digit (last s)"
      using all by simp
    ultimately show ?thesis by auto
  next
    case False
    let ?rest = "dropWhile is_digit s"
    let ?next = "dropWhile (\<lambda>c. \<not> is_digit c) ?rest"
    have s: "s \<noteq> []" using False by auto
    have IH: "[] \<in> set (Split ?next) \<longleftrightarrow>
        ?next = [] \<or> \<not> is_digit (hd ?next) \<or> \<not> is_digit (last ?next)"
      using "1.IH" [OF refl refl False] .
    have hd_next: "?next \<noteq> [] \<Longrightarrow> is_digit (hd ?next)"
      using hd_dropWhile [of "\<lambda>c. \<not> is_digit c" ?rest] by simp
    have s_eq: "s = takeWhile is_digit s @ takeWhile (\<lambda>c. \<not> is_digit c) ?rest @ ?next"
      by simp
    have last_next: "last s = last ?next" if "?next \<noteq> []"
    proof -
      have "last s = last (takeWhile is_digit s @ takeWhile (\<lambda>c. \<not> is_digit c) ?rest @ ?next)"
        by (rule arg_cong [where f = last, OF s_eq])
      also have "\<dots> = last ?next"
        by (metis that last_appendR append_is_Nil_conv)
      finally show ?thesis .
    qed
    have last_sep: "\<not> is_digit (last s)" if n: "?next = []"
    proof -
      from n have all: "\<forall>c \<in> set ?rest. \<not> is_digit c" by simp
      have "last s = last ?rest"
        using False takeWhile_dropWhile_id [of is_digit s] last_appendR [of ?rest "takeWhile is_digit s"]
        by simp
      moreover have "last ?rest \<in> set ?rest" using False by simp
      ultimately show ?thesis using all by simp
    qed
    have first: "takeWhile is_digit s = [] \<longleftrightarrow> \<not> is_digit (hd s)"
      using s by (simp add: takeWhile_eq_Nil_iff)
    have "[] \<in> set (Split s) \<longleftrightarrow> takeWhile is_digit s = [] \<or> [] \<in> set (Split ?next)"
      using Split_rest [OF False] by auto
    also have "\<dots> \<longleftrightarrow> \<not> is_digit (hd s) \<or> \<not> is_digit (last s)"
    proof (cases "?next = []")
      case True
      then have "[] \<in> set (Split ?next)" using IH by blast
      moreover have "\<not> is_digit (last s)" using last_sep [OF True] .
      ultimately show ?thesis by blast
    next
      case False
      then have "[] \<in> set (Split ?next) \<longleftrightarrow> \<not> is_digit (last s)"
        using IH hd_next [OF False] last_next [OF False] by metis
      then show ?thesis using first by blast
    qed
    finally show ?thesis using s by simp
  qed
qed

lemma uptime_loop_error_iff:
  "(\<exists>err. uptime_loop i parts u = Inl err) \<longleftrightarrow> (\<exists>p \<in> set parts. \<exists>err. ParseFloat p = Inl err)"
  by (induction parts arbitrary: i u) (auto split: sum.splits)

lemma uptime_loop_first_error:
  "uptime_loop i parts u = Inl err \<Longrightarrow> \<exists>p \<in> set parts. ParseFloat p = Inl err"
  by (induction parts arbitrary: i u) (auto split: sum.splits)

lemma uptime_loop_ignore:
  "4 \<le> i \<Longrightarrow> \<forall>p \<in> set parts. \<exists>v. ParseFloat p = Inr v \<Longrightarrow> uptime_loop i parts u = Inr u"
  by (induction parts arbitrary: i) auto

lemma decimal_Nil: "decimal [] = 0"
  by (simp add: decimal_def)

lemma overflow_bound_pos: "0 < overflow_bound"
  by (simp add: overflow_bound_def)

text \<open>A piece of the split fails to parse exactly when it is empty or too large.\<close>

lemma piece_error_iff:
  assumes "\<forall>c \<in> set p. is_digit c"
  shows "(\<exists>err. ParseFloat p = Inl err) \<longleftrightarrow> p = [] \<or> overflow_bound \<le> of_nat (decimal p)"
proof (cases "p = []")
  case True
  then show ?thesis by (simp add: ParseFloat_Nil)
next
  case False
  then show ?thesis using ParseFloat_digits [OF False assms] by simp
qed

lemma piece_value:
  assumes "\<forall>c \<in> set p. is_digit c" and "p \<noteq> []" and "\<not> overflow_bound \<le> of_nat (decimal p)"
  shows "ParseFloat p = Inr (round64 False (of_nat (decimal p)))"
  using ParseFloat_digits [OF assms(2,1)] assms(3) by simp

text \<open>
  A step of the loop, \<^verbatim>\<open>uptime*24 + n\<close> or \<^verbatim>\<open>uptime*60 + n\<close>, on natural numbers: exact as
  long as the result stays below \<open>2^53\<close>, where every natural number is a double.
\<close>

lemma uptime_step:
  assumes "a * k + b < 2 ^ 53"
  shows "f64_add (f64_mul (Finite (of_nat a)) (Finite (of_nat k))) (Finite (of_nat b))
         = Finite (of_nat (a * k + b))"
proof -
  from assms have m: "a * k < 2 ^ 53" by simp
  show ?thesis
    by (simp only: f64_mul_nat [OF m] f64_add_nat [OF assms])
qed

lemma uptime_step_24:
  "a * 24 + b < 2 ^ 53 \<Longrightarrow>
   f64_add (f64_mul (Finite (of_nat a)) (Finite 24)) (Finite (of_nat b)) = Finite (of_nat (a * 24 + b))"
  using uptime_step [of a 24 b] by simp

lemma uptime_step_60:
  "a * 60 + b < 2 ^ 53 \<Longrightarrow>
   f64_add (f64_mul (Finite (of_nat a)) (Finite 60)) (Finite (of_nat b)) = Finite (of_nat (a * 60 + b))"
  using uptime_step [of a 60 b] by simp

text \<open>The fold of the loop on pieces that parse, as long as the seconds stay below \<open>2^53\<close>.\<close>

lemma uptime_loop_value:
  assumes "\<forall>p \<in> set parts. ParseFloat p = Inr (round64 False (of_nat (decimal p)))"
    and "uptime_seconds (map decimal parts) < 2 ^ 53"
  shows "uptime_loop 0 parts (Finite 0) = Inr (Finite (of_nat (uptime_seconds (map decimal parts))))"
proof -
  consider "parts = []" | d where "parts = [d]" | d h where "parts = [d, h]"
    | d h m where "parts = [d, h, m]" | d h m s rest where "parts = d # h # m # s # rest"
    by (metis list.exhaust)
  then show ?thesis
  proof cases
    case 1
    then show ?thesis by simp
  next
    case 2
    with assms(2) have "decimal d < 2 ^ 53" by simp
    from round64_nat [OF this] assms(1) 2 show ?thesis by simp
  next
    case 3
    define x1 where "x1 = decimal d * 24 + decimal h"
    from 3 assms(2) have t: "decimal d * 24 + decimal h < 2 ^ 53" by simp
    then have b: "decimal d < 2 ^ 53" "decimal h < 2 ^ 53" by simp_all
    from assms(1) 3 have p: "ParseFloat d = Inr (Finite (of_nat (decimal d)))"
      "ParseFloat h = Inr (Finite (of_nat (decimal h)))"
      using round64_nat [OF b(1)] round64_nat [OF b(2)] by simp_all
    have s1: "f64_add (f64_mul (Finite (of_nat (decimal d))) (Finite 24)) (Finite (of_nat (decimal h)))
        = Finite (of_nat x1)"
      unfolding x1_def using t by (rule uptime_step_24)
    have "uptime_loop 0 parts (Finite 0) = Inr (Finite (of_nat x1))"
      unfolding 3 by (simp add: p s1)
    also have "x1 = uptime_seconds (map decimal parts)"
      unfolding 3 by (simp add: x1_def)
    finally show ?thesis .
  next
    case 4
    define x1 where "x1 = decimal d * 24 + decimal h"
    define x2 where "x2 = x1 * 60 + decimal m"
    from 4 assms(2) have t: "x2 < 2 ^ 53" by (simp add: x1_def x2_def)
    then have t1: "x1 < 2 ^ 53" by (simp add: x2_def)
    then have b: "decimal d < 2 ^ 53" "decimal h < 2 ^ 53" by (simp_all add: x1_def)
    from t have b3: "decimal m < 2 ^ 53" by (simp add: x2_def)
    from assms(1) 4 have p: "ParseFloat d = Inr (Finite (of_nat (decimal d)))"
      "ParseFloat h = Inr (Finite (of_nat (decimal h)))"
      "ParseFloat m = Inr (Finite (of_nat (decimal m)))"
      using round64_nat [OF b(1)] round64_nat [OF b(2)] round64_nat [OF b3] by simp_all
    have s1: "f64_add (f64_mul (Finite (of_nat (decimal d))) (Finite 24)) (Finite (of_nat (decimal h)))
        = Finite (of_nat x1)"
      unfolding x1_def using t1 [unfolded x1_def] by (rule uptime_step_24)
    have s2: "f64_add (f64_mul (Finite (of_nat x1)) (Finite 60)) (Finite (of_nat (decimal m)))
        = Finite (of_nat x2)"
      unfolding x2_def using t [unfolded x2_def] by (rule uptime_step_60)
    have "uptime_loop 0 parts (Finite 0) = Inr (Finite (of_nat x2))"
      unfolding 4 by (simp add: p s1 s2)
    also have "x2 = uptime_seconds (map decimal parts)"
      unfolding 4 by (simp add: x1_def x2_def)
    finally show ?thesis .
  next
    case 5
    define x1 where "x1 = decimal d * 24 + decimal h"
    define x2 where "x2 = x1 * 60 + decimal m"
    define x3 where "x3 = x2 * 60 + decimal s"
    from 5 assms(2) have t: "x3 < 2 ^ 53" by (simp add: x1_def x2_def x3_def)
    then have t2: "x2 < 2 ^ 53" by (simp add: x3_def)
    then have t1: "x1 < 2 ^ 53" by (simp add: x2_def)
    then have b: "decimal d < 2 ^ 53" "decimal h < 2 ^ 53" by (simp_all add: x1_def)
    from t2 have b3: "decimal m < 2 ^ 53" by (simp add: x2_def)
    from t have b4: "decimal s < 2 ^ 53" by (simp add: x3_def)
    from assms(1) 5 have p: "ParseFloat d = Inr (Finite (of_nat (decimal d)))"
      "ParseFloat h = Inr (Finite (of_nat (decimal h)))"
      "ParseFloat m = Inr (Finite (of_nat (decimal m)))"
      "ParseFloat s = Inr (Finite (of_nat (decimal s)))"
      using round64_nat [OF b(1)] round64_nat [OF b(2)] round64_nat [OF b3]
        round64_nat [OF b4] by simp_all
    from assms(1) 5 have "\<forall>p \<in> set rest. \<exists>v. ParseFloat p = Inr v"
      by simp
    then have r: "uptime_loop (Suc (Suc (Suc (Suc 0)))) rest u = Inr u" for u
      by (intro uptime_loop_ignore) simp_all
    have s1: "f64_add (f64_mul (Finite (of_nat (decimal d))) (Finite 24)) (Finite (of_nat (decimal h)))
        = Finite (of_nat x1)"
      unfolding x1_def using t1 [unfolded x1_def] by (rule uptime_step_24)
    have s2: "f64_add (f64_mul (Finite (of_nat x1)) (Finite 60)) (Finite (of_nat (decimal m)))
        = Finite (of_nat x2)"
      unfolding x2_def using t2 [unfolded x2_def] by (rule uptime_step_60)
    have s3: "f64_add (f64_mul (Finite (of_nat x2)) (Finite 60)) (Finite (of_nat (decimal s)))
        = Finite (of_nat x3)"
      unfolding x3_def using t [unfolded x3_def] by (rule uptime_step_60)
    have "uptime_loop 0 parts (Finite 0) = Inr (Finite (of_nat x3))"
      unfolding 5 by (simp add: p r s1 s2 s3)
    also have "x3 = uptime_seconds (map decimal parts)"
      unfolding 5 by (simp add: x1_def x2_def x3_def)
    finally show ?thesis .
  qed
qed

lemma parse_uptime_error_iff:
  "(\<exists>err. parse_uptime s = Inl err) \<longleftrightarrow>
     s = [] \<or> \<not> is_digit (hd s) \<or> \<not> is_digit (last s)
     \<or> (\<exists>p \<in> set (Split s). overflow_bound \<le> of_nat (decimal p))"
proof -
  have "(\<exists>err. parse_uptime s = Inl err)
      \<longleftrightarrow> (\<exists>p \<in> set (Split s). p = [] \<or> overflow_bound \<le> of_nat (decimal p))"
    unfolding parse_uptime_def uptime_loop_error_iff
  proof (intro bex_cong refl)
    fix p
    assume "p \<in> set (Split s)"
    then have "\<forall>c \<in> set p. is_digit c" using Split_pieces_digits by blast
    from piece_error_iff [OF this]
    show "(\<exists>err. ParseFloat p = Inl err) \<longleftrightarrow> p = [] \<or> overflow_bound \<le> of_nat (decimal p)" .
  qed
  also have "\<dots> \<longleftrightarrow> [] \<in> set (Split s)
      \<or> (\<exists>p \<in> set (Split s). overflow_bound \<le> of_nat (decimal p))"
    by blast
  finally show ?thesis unfolding Split_empty_piece by blast
qed

lemma parse_uptime_value:
  assumes "\<not> (\<exists>err. parse_uptime s = Inl err)"
    and "uptime_seconds (map decimal (Split s)) < 2 ^ 53"
  shows "parse_uptime s = Inr (Finite (of_nat (uptime_seconds (map decimal (Split s)))))"
proof -
  have "ParseFloat p = Inr (round64 False (of_nat (decimal p)))" if "p \<in> set (Split s)" for p
  proof -
    have d: "\<forall>c \<in> set p. is_digit c" using that Split_pieces_digits by blast
    from assms(1) have "\<not> (\<exists>err. ParseFloat p = Inl err)"
      unfolding parse_uptime_def uptime_loop_error_iff using that by blast
    with piece_error_iff [OF d] piece_value [OF d] show ?thesis by blast
  qed
  then show ?thesis
    unfolding parse_uptime_def using assms(2) by (intro uptime_loop_value) blast
qed

subsection \<open>Uptime errors\<close>

lemma scrape_pages_uptime_error:
  assumes "parse_uptime (FirstText (Find info uptimeSelector)) = Inl err"
  shows "scrape_info e connectivityState downstreamChannels upstreamChannels lg info = (Inl err, lg)"
    and "fst (scrape_pages e doc info) = Inl err"
  using assms by (simp_all add: scrape_info_eq scrape_pages_eq)

lemma scrape_pages_uptime_value:
  assumes "parse_uptime (FirstText (Find info uptimeSelector)) = Inr uptime"
  shows "\<exists>m. fst (scrape_pages e doc info) = Inr m \<and> Uptime m = uptime"
  using assms by (simp add: scrape_pages_eq)

text \<open>
  Claim C3, as the code has it. The uptime loop fails exactly when a piece of the
  uptime string does not parse: when the piece is empty (the string is empty, or
  begins or ends with a character that is not a digit) or too large for a double.
  The statements of \<^verbatim>\<open>Scrape\<close> on the second page then return that error and no
  modem. The number of pieces is not checked: in every other case they return a
  modem with the uptime that the loop computed, and as long as the seconds stay
  below \<open>2^53\<close> that uptime folds the pieces that are there (days, hours, minutes,
  seconds) and ignores the pieces after the fourth.
\<close>

theorem uptime_errors:
  "((\<exists>err. parse_uptime uptimeStr = Inl err) \<longleftrightarrow>
       uptimeStr = [] \<or> \<not> is_digit (hd uptimeStr) \<or> \<not> is_digit (last uptimeStr)
       \<or> (\<exists>p \<in> set (Split uptimeStr). overflow_bound \<le> of_nat (decimal p)))
   \<and> (parse_uptime (FirstText (Find info uptimeSelector)) = Inl err \<longrightarrow>
        scrape_info e connectivityState downstreamChannels upstreamChannels lg info = (Inl err, lg)
        \<and> fst (scrape_pages e doc info) = Inl err)
   \<and> (parse_uptime (FirstText (Find info uptimeSelector)) = Inr uptime \<longrightarrow>
        (\<exists>m. fst (scrape_pages e doc info) = Inr m \<and> Uptime m = uptime))
   \<and> ((\<forall>err. parse_uptime uptimeStr \<noteq> Inl err)
        \<and> uptime_seconds (map decimal (Split uptimeStr)) < 2 ^ 53 \<longrightarrow>
        parse_uptime uptimeStr
          = Inr (Finite (of_nat (uptime_seconds (map decimal (Split uptimeStr))))))"
proof -
  have a: "(\<exists>err. parse_uptime uptimeStr = Inl err) \<longleftrightarrow>
       uptimeStr = [] \<or> \<not> is_digit (hd uptimeStr) \<or> \<not> is_digit (last uptimeStr)
       \<or> (\<exists>p \<in> set (Split uptimeStr). overflow_bound \<le> of_nat (decimal p))"
    by (rule parse_uptime_error_iff)
  have b: "scrape_info e connectivityState downstreamChannels upstreamChannels lg info = (Inl err, lg)
        \<and> fst (scrape_pages e doc info) = Inl err"
    if "parse_uptime (FirstText (Find info uptimeSelector)) = Inl err"
    using scrape_pages_uptime_error [OF that] by blast
  have c: "\<exists>m. fst (scrape_pages e doc info) = Inr m \<and> Uptime m = uptime"
    if "parse_uptime (FirstText (Find info uptimeSelector)) = Inr uptime"
    using that by (rule scrape_pages_uptime_value)
  have d: "parse_uptime uptimeStr
          = Inr (Finite (of_nat (uptime_seconds (map decimal (Split uptimeStr)))))"
    if "\<forall>err. parse_uptime uptimeStr \<noteq> Inl err"
      and "uptime_seconds (map decimal (Split uptimeStr)) < 2 ^ 53"
    using that by (intro parse_uptime_value) blast+
  from a b c d show ?thesis by blast
qed

lemma example_info_no_uptime: "FirstText (Find (info_page []) uptimeSelector) = []"
  by (simp add: info_page_def FirstText_def)

lemma example_uptime_short:
  "parse_uptime ''12'' = Inr (Finite 12)"
  "parse_uptime ''1 2 3 4 5 6 7'' = Inr (Finite 93784)"
  "parse_uptime [] = Inl (NumError ''ParseFloat'' [] ErrSyntax)"
  "parse_uptime ''5 days'' = Inl (NumError ''ParseFloat'' [] ErrSyntax)"
  by (simp_all add: parse_uptime_def Split.simps float_eval)

lemma example_splits:
  "Split ''12'' = [''12'']"
  "Split ''1 2 3 4 5 6 7'' = [''1'', ''2'', ''3'', ''4'', ''5'', ''6'', ''7'']"
  "Split ''40 days 05h:32m:52s.00'' = [''40'', ''05'', ''32'', ''52'', ''00'']"
  by (simp_all add: Split.simps is_digit_def byte_def)

text \<open>
  Claim C3 as stated fails on the number of pieces: an uptime of one piece, or of
  seven, is not an error, in the loop and in the statements around it.
\<close>

theorem uptime_errors_counterexample:
  "Split ''12'' = [''12'']
   \<and> parse_uptime ''12'' = Inr (Finite 12)
   \<and> \<not> isl (fst (scrape_pages example_exporter (status_page [''OK''] [] []) (info_page [''12''])))
   \<and> Uptime (projr (fst (scrape_pages example_exporter (status_page [''OK''] [] [])
        (info_page [''12''])))) = Finite 12
   \<and> Split ''1 2 3 4 5 6 7'' = [''1'', ''2'', ''3'', ''4'', ''5'', ''6'', ''7'']
   \<and> parse_uptime ''1 2 3 4 5 6 7'' = Inr (Finite 93784)
   \<and> \<not> isl (fst (scrape_pages example_exporter (status_page [''OK''] [] [])
        (info_page [''1 2 3 4 5 6 7''])))"
  by (simp add: example_pages example_uptime_short example_splits)

theorem uptime_errors_witness:
  "\<not> is_digit (last ''5 days'')
   \<and> parse_uptime ''5 days'' = Inl (NumError ''ParseFloat'' [] ErrSyntax)
   \<and> fst (scrape_pages example_exporter (status_page [''OK''] [] []) (info_page [''5 days'']))
     = Inl (NumError ''ParseFloat'' [] ErrSyntax)
   \<and> fst (scrape_pages example_exporter (status_page [''OK''] [] []) (info_page []))
     = Inl (NumError ''ParseFloat'' [] ErrSyntax)
   \<and> Uptime (projr (fst (scrape_pages example_exporter (status_page [''OK''] [] [])
        (info_page [''40 days 05h:32m:52s.00''])))) = Finite 3475972
   \<and> uptime_seconds (map decimal (Split ''40 days 05h:32m:52s.00'')) = 3475972
   \<and> parse_uptime ''40 days 05h:32m:52s.00'' = Inr (Finite 3475972)"
proof -
  let ?e = "NumError ''ParseFloat'' [] ErrSyntax"
  have 1: "\<not> is_digit (last ''5 days'')"
    by (simp add: is_digit_def byte_def)
  have "\<exists>err. parse_uptime ''5 days'' = Inl err"
    using uptime_errors [where uptimeStr = "''5 days''"] 1 by blast
  then have 2: "parse_uptime ''5 days'' = Inl ?e"
    by (simp add: example_uptime_short)
  have 3: "fst (scrape_pages example_exporter (status_page [''OK''] [] []) (info_page [''5 days'']))
      = Inl ?e"
    using uptime_errors [where info = "info_page [''5 days'']" and err = ?e
        and e = example_exporter and doc = "status_page [''OK''] [] []"] 2
    by (simp add: example_info_uptime)
  have 4: "fst (scrape_pages example_exporter (status_page [''OK''] [] []) (info_page []))
      = Inl ?e"
    using uptime_errors [where info = "info_page []" and err = ?e
        and e = example_exporter and doc = "status_page [''OK''] [] []"]
    by (simp add: example_info_no_uptime example_uptime_short)
  have 5: "uptime_seconds (map decimal (Split ''40 days 05h:32m:52s.00'')) = 3475972"
    by (simp add: example_splits decimal_def byte_def)
  have ok: "\<forall>err. parse_uptime ''40 days 05h:32m:52s.00'' \<noteq> Inl err"
    by (simp add: example_uptime)
  have 6: "parse_uptime ''40 days 05h:32m:52s.00'' = Inr (Finite 3475972)"
    using uptime_errors [where uptimeStr = "''40 days 05h:32m:52s.00''"] ok 5
    by simp
  have u: "parse_uptime (FirstText (Find (info_page [''40 days 05h:32m:52s.00'']) uptimeSelector))
      = Inr (Finite 3475972)"
    by (simp only: example_info_uptime 6)
  have "\<exists>m. fst (scrape_pages example_exporter (status_page [''OK''] [] [])
        (info_page [''40 days 05h:32m:52s.00''])) = Inr m \<and> Uptime m = Finite 3475972"
    using uptime_errors [where info = "info_page [''40 days 05h:32m:52s.00'']"
        and uptime = "Finite 3475972" and e = example_exporter
        and doc = "status_page [''OK''] [] []"] u
    by blast
  then have 7: "Uptime (projr (fst (scrape_pages example_exporter (status_page [''OK''] [] [])
        (info_page [''40 days 05h:32m:52s.00''])))) = Finite 3475972"
    by auto
  from 1 2 3 4 5 6 7 show ?thesis by blast
qed

subsection \<open>The sign of a number\<close>

lemma special_sign:
  assumes "special s = Some (v, n)"
  shows "s \<noteq> []" and "v = PosInf \<or> v = NegInf \<or> v = NaN" and "v = NegInf \<longleftrightarrow> hd s = CHR ''-''"
  using assms
  by (auto simp: special_def infinity_prefix_def Let_def split: list.splits if_splits)

lemma finish_float_Some:
  "finish_float s st neg hex dpoint us rest = Some (m, ex, neg', hex', rest')
   \<Longrightarrow> m = mantissa st \<and> neg' = neg \<and> hex' = hex \<and> rest' = rest"
  by (auto simp: finish_float_def Let_def split: if_splits)

lemma read_exponent_Some:
  "read_exponent s st neg hex dpoint s3 = Some (m, ex, neg', hex', rest')
   \<Longrightarrow> m = mantissa st \<and> neg' = neg \<and> hex' = hex"
  by (auto simp: read_exponent_def Let_def split: list.splits if_splits prod.splits
      dest!: finish_float_Some)

lemma read_digits_Some:
  "read_digits s neg s1 = Some (m, ex, neg', hex', rest') \<Longrightarrow> neg' = neg"
  by (auto simp: read_digits_def Let_def split: prod.splits if_splits dest!: read_exponent_Some)

lemma readFloat_sign:
  "readFloat s = Some (m, ex, neg, hex, rest) \<Longrightarrow> s \<noteq> [] \<and> neg = (hd s = CHR ''-'')"
  by (auto simp: readFloat_def split: list.splits dest!: read_digits_Some)

lemma float_value_nonneg: "0 \<le> float_value m ex hex"
proof -
  have "(0::rat) < (if hex then 2 else 10) powi ex"
    by (intro zero_less_power_int) simp
  then show ?thesis
    unfolding float_value_def by (intro mult_nonneg_nonneg) simp_all
qed

text \<open>
  A parsed number is negative exactly when its text has a minus sign and it is
  not the negative zero, which is what a number with a minus sign is when it
  rounds to zero.
\<close>

lemma ParseFloat_negative:
  assumes "ParseFloat s = Inr v"
  shows "s \<noteq> []" and "f64_negative v \<longleftrightarrow> hd s = CHR ''-'' \<and> v \<noteq> NegZero"
proof -
  show "s \<noteq> []" using assms by (auto simp: ParseFloat_Nil)
  show "f64_negative v \<longleftrightarrow> hd s = CHR ''-'' \<and> v \<noteq> NegZero"
  proof (cases "special s")
    case (Some r)
    obtain v' n where r: "r = (v', n)" by (cases r)
    with Some assms have "v' = v" by (auto simp: ParseFloat_def split: if_splits)
    with special_sign [OF Some [unfolded r]] show ?thesis by auto
  next
    case None
    with assms obtain m ex neg hex where
      rf: "readFloat s = Some (m, ex, neg, hex, [])"
      and nb: "\<not> overflow_bound \<le> float_value m ex hex"
      and v: "v = round64 neg (float_value m ex hex)"
      by (auto simp: ParseFloat_def split: option.splits prod.splits if_splits)
    from readFloat_sign [OF rf] have "neg = (hd s = CHR ''-'')" by simp
    with round64_sign(1) [OF float_value_nonneg nb, of neg] v show ?thesis by simp
  qed
qed

lemma TrimRight_Nil: "TrimRight s [] = s"
  by (simp add: TrimRight_def)

lemma ScrapeUnitValue_bare: "ScrapeUnitValue element child [] = ParseFloat (ScrapeColStr element child)"
  by (simp add: ScrapeUnitValue_ParseFloat TrimRight_Nil)

lemma ParseFloat_digits_exact:
  assumes "\<forall>c \<in> set s. is_digit c" and "decimal s < 2 ^ 53" and "ParseFloat s = Inr v"
  shows "v = Finite (of_nat (decimal s))"
proof -
  from assms(3) have ne: "s \<noteq> []" by (auto simp: ParseFloat_Nil)
  from ParseFloat_digits [OF ne assms(1)] assms(3)
  have "v = round64 False (of_nat (decimal s))" by (auto split: if_splits)
  with round64_nat [OF assms(2)] show ?thesis by simp
qed

text \<open>
  Claim C9, as the code has it. A counter of a downstream record is what
  \<^verbatim>\<open>strconv.ParseFloat\<close> returns for the text of column 7 (corrected) or 8
  (uncorrectable) of its row, with the sign the text has: it is negative exactly
  when the text begins with a minus sign and the number does not round to zero.
  For a cell of decimal digits the counter is the number they denote (exactly so
  below \<open>2^53\<close>), which is not negative. This holds for the record of a row, and
  every record of a table is the record of one of its rows.
\<close>

theorem counter_sign:
  "(ScrapeDownstreamTableRow element = Inr ch \<longrightarrow>
      ParseFloat (ScrapeColStr element 7) = Inr (CorrectedErrors ch)
    \<and> ParseFloat (ScrapeColStr element 8) = Inr (UncorrectableErrors ch)
    \<and> (f64_negative (CorrectedErrors ch)
         \<longleftrightarrow> hd (ScrapeColStr element 7) = CHR ''-'' \<and> CorrectedErrors ch \<noteq> NegZero)
    \<and> (f64_negative (UncorrectableErrors ch)
         \<longleftrightarrow> hd (ScrapeColStr element 8) = CHR ''-'' \<and> UncorrectableErrors ch \<noteq> NegZero)
    \<and> ((\<forall>c \<in> set (ScrapeColStr element 7). is_digit c) \<and> decimal (ScrapeColStr element 7) < 2 ^ 53
         \<longrightarrow> CorrectedErrors ch = Finite (of_nat (decimal (ScrapeColStr element 7))))
    \<and> ((\<forall>c \<in> set (ScrapeColStr element 8). is_digit c) \<and> decimal (ScrapeColStr element 8) < 2 ^ 53
         \<longrightarrow> UncorrectableErrors ch = Finite (of_nat (decimal (ScrapeColStr element 8)))))
   \<and> (ch \<in> set (fst (ScrapeDownstreamTable rows)) \<longrightarrow>
        (\<exists>r \<in> set rows. ScrapeDownstreamTableRow r = Inr ch))"
proof -
  have row: "ParseFloat (ScrapeColStr element 7) = Inr (CorrectedErrors ch)
    \<and> ParseFloat (ScrapeColStr element 8) = Inr (UncorrectableErrors ch)
    \<and> (f64_negative (CorrectedErrors ch)
         \<longleftrightarrow> hd (ScrapeColStr element 7) = CHR ''-'' \<and> CorrectedErrors ch \<noteq> NegZero)
    \<and> (f64_negative (UncorrectableErrors ch)
         \<longleftrightarrow> hd (ScrapeColStr element 8) = CHR ''-'' \<and> UncorrectableErrors ch \<noteq> NegZero)
    \<and> ((\<forall>c \<in> set (ScrapeColStr element 7). is_digit c) \<and> decimal (ScrapeColStr element 7) < 2 ^ 53
         \<longrightarrow> CorrectedErrors ch = Finite (of_nat (decimal (ScrapeColStr element 7))))
    \<and> ((\<forall>c \<in> set (ScrapeColStr element 8). is_digit c) \<and> decimal (ScrapeColStr element 8) < 2 ^ 53
         \<longrightarrow> UncorrectableErrors ch = Finite (of_nat (decimal (ScrapeColStr element 8))))"
    if r: "ScrapeDownstreamTableRow element = Inr ch"
  proof -
    have p7: "ParseFloat (ScrapeColStr element 7) = Inr (CorrectedErrors ch)"
      using downstream_row_fields(8) [OF r] by (simp add: ScrapeUnitValue_bare)
    have p8: "ParseFloat (ScrapeColStr element 8) = Inr (UncorrectableErrors ch)"
      using downstream_row_fields(9) [OF r] by (simp add: ScrapeUnitValue_bare)
    have d7: "CorrectedErrors ch = Finite (of_nat (decimal (ScrapeColStr element 7)))"
      if "\<forall>c \<in> set (ScrapeColStr element 7). is_digit c" "decimal (ScrapeColStr element 7) < 2 ^ 53"
      using ParseFloat_digits_exact [OF that p7] .
    have d8: "UncorrectableErrors ch = Finite (of_nat (decimal (ScrapeColStr element 8)))"
      if "\<forall>c \<in> set (ScrapeColStr element 8). is_digit c" "decimal (ScrapeColStr element 8) < 2 ^ 53"
      using ParseFloat_digits_exact [OF that p8] .
    from p7 p8 ParseFloat_negative(2) [OF p7] ParseFloat_negative(2) [OF p8] d7 d8
    show ?thesis by blast
  qed
  have table: "\<exists>r \<in> set rows. ScrapeDownstreamTableRow r = Inr ch"
    if "ch \<in> set (fst (ScrapeDownstreamTable rows))"
    using that by (rule downstream_channel_from_row)
  from row table show ?thesis by blast
qed

lemma ex_negative_row:
  "ScrapeDownstreamTableRow downstream_row_negative = Inr
        \<lparr>DownstreamChannel.ChannelID = ''3'', LockStatus = Finite 1, Modulation = ''QAM256'',
         Frequency = ''507000000 Hz'', Power = Finite 4, SNR = Finite (81 / 2),
         CorrectedErrors = Finite (- 5), UncorrectableErrors = Finite 0\<rparr>"
  by (simp add: ScrapeDownstreamTableRow_def example_rows cell_eval float_eval)

text \<open>
  Claim C9 as stated fails: the row parser, and the table parser with it, return
  the record with the counter -5 for a row whose corrected cell reads \<^verbatim>\<open>-5\<close>.
\<close>

theorem counter_sign_counterexample:
  "ScrapeColStr downstream_row_negative 7 = ''-5''
   \<and> ScrapeDownstreamTableRow downstream_row_negative = Inr
        \<lparr>DownstreamChannel.ChannelID = ''3'', LockStatus = Finite 1, Modulation = ''QAM256'',
         Frequency = ''507000000 Hz'', Power = Finite 4, SNR = Finite (81 / 2),
         CorrectedErrors = Finite (- 5), UncorrectableErrors = Finite 0\<rparr>
   \<and> map CorrectedErrors (fst (ScrapeDownstreamTable [downstream_header, downstream_row_negative]))
       = [Finite (- 5)]
   \<and> f64_negative (Finite (- 5))"
  by (simp add: ScrapeDownstreamTable_eq ex_rows ex_negative_row)
    (simp add: ScrapeColStr_def downstream_row_negative_def)

theorem counter_sign_witness:
  "ScrapeDownstreamTableRow downstream_row_negative = Inr
        \<lparr>DownstreamChannel.ChannelID = ''3'', LockStatus = Finite 1, Modulation = ''QAM256'',
         Frequency = ''507000000 Hz'', Power = Finite 4, SNR = Finite (81 / 2),
         CorrectedErrors = Finite (- 5), UncorrectableErrors = Finite 0\<rparr>
   \<and> hd (ScrapeColStr downstream_row_negative 7) = CHR ''-''
   \<and> ParseFloat ''-5'' = Inr (Finite (- 5))
   \<and> f64_negative (Finite (- 5))
   \<and> ScrapeColStr downstream_row_1 7 = ''12''
   \<and> decimal ''12'' = 12
   \<and> CorrectedErrors (projr (ScrapeDownstreamTableRow downstream_row_1)) = Finite 12
   \<and> \<not> f64_negative (CorrectedErrors (projr (ScrapeDownstreamTableRow downstream_row_1)))
   \<and> projr (ScrapeDownstreamTableRow downstream_row_1)
       \<in> set (fst (ScrapeDownstreamTable [downstream_header, downstream_row_1]))"
proof -
  let ?n = "projr (ScrapeDownstreamTableRow downstream_row_negative)"
  let ?c = "projr (ScrapeDownstreamTableRow downstream_row_1)"
  have c7: "ScrapeColStr downstream_row_negative 7 = ''-5''" "ScrapeColStr downstream_row_1 7 = ''12''"
    by (simp_all add: ScrapeColStr_def downstream_row_negative_def downstream_row_1_def)
  have rn: "ScrapeDownstreamTableRow downstream_row_negative = Inr ?n"
    by (simp add: ex_negative_row)
  have rc: "ScrapeDownstreamTableRow downstream_row_1 = Inr ?c"
    by (simp add: ex_rows)
  have dec: "decimal ''12'' = 12" "\<forall>c \<in> set ''12''. is_digit c" "decimal ''12'' < 2 ^ 53"
    by (simp_all add: decimal_def byte_def is_digit_def)
  from counter_sign [where element = downstream_row_negative and ch = ?n] rn
  have n1: "ParseFloat (ScrapeColStr downstream_row_negative 7) = Inr (CorrectedErrors ?n)"
    and n2: "f64_negative (CorrectedErrors ?n)
       \<longleftrightarrow> hd (ScrapeColStr downstream_row_negative 7) = CHR ''-'' \<and> CorrectedErrors ?n \<noteq> NegZero"
    by blast+
  have 1: "ParseFloat ''-5'' = Inr (Finite (- 5))"
    using n1 by (simp add: c7 ex_negative_row)
  have 2: "f64_negative (Finite (- 5))"
    using n2 by (simp add: c7 ex_negative_row)
  from counter_sign [where element = downstream_row_1 and ch = ?c] rc
  have "(\<forall>c \<in> set (ScrapeColStr downstream_row_1 7). is_digit c)
      \<and> decimal (ScrapeColStr downstream_row_1 7) < 2 ^ 53
      \<longrightarrow> CorrectedErrors ?c = Finite (of_nat (decimal (ScrapeColStr downstream_row_1 7)))"
    by blast
  then have 3: "CorrectedErrors ?c = Finite 12"
    unfolding c7 using dec by simp
  then have 4: "\<not> f64_negative (CorrectedErrors ?c)" by simp
  have 5: "?c \<in> set (fst (ScrapeDownstreamTable [downstream_header, downstream_row_1]))"
    by (simp add: ScrapeDownstreamTable_eq ex_rows)
  have 6: "hd (ScrapeColStr downstream_row_negative 7) = CHR ''-''"
    by (simp add: c7)
  from ex_negative_row 6 1 2 c7(2) dec(1) 3 4 5 show ?thesis by blast
qed

subsection \<open>Units\<close>

lemma TrimRight_append_suffix:
  assumes "s = [] \<or> last s \<notin> set cutset" and "set suffix \<subseteq> set cutset"
  shows "TrimRight (s @ suffix) cutset = s"
proof -
  have "dropWhile (\<lambda>c. c \<in> set cutset) (rev suffix @ rev s) = dropWhile (\<lambda>c. c \<in> set cutset) (rev s)"
    using assms(2) by (intro dropWhile_append2) auto
  also have "\<dots> = rev s"
  proof (cases s rule: rev_cases)
    case Nil
    then show ?thesis by simp
  next
    case (snoc xs x)
    with assms(1) show ?thesis by simp
  qed
  finally show ?thesis by (simp add: TrimRight_def)
qed

lemma cpl_full:
  "commonPrefixLenIgnoreCase s p = length s \<Longrightarrow> s \<noteq> [] \<Longrightarrow>
   length s \<le> length p \<and> fold_upper (last s) = byte (p ! (length s - 1))"
proof (induction s p rule: commonPrefixLenIgnoreCase.induct)
  case (1 c s p prefix)
  from "1.prems"(1) have c: "fold_upper c = byte p"
    and r: "commonPrefixLenIgnoreCase s prefix = length s"
    by (auto split: if_splits)
  show ?case
  proof (cases "s = []")
    case True
    with c show ?thesis by simp
  next
    case False
    from "1.IH" [OF c r False] False show ?thesis by (cases s) auto
  qed
qed simp_all

lemma cpl_le: "commonPrefixLenIgnoreCase s p \<le> length s"
  by (induction s p rule: commonPrefixLenIgnoreCase.induct) auto

lemma fold_upper_not_unit:
  assumes "fold_upper c = byte CHR ''f'' \<or> fold_upper c = byte CHR ''y'' \<or> fold_upper c = byte CHR ''n''"
  shows "c \<notin> set '' dBmV''"
  using assms by (auto simp: fold_upper_def byte_def)

lemma infinity_prefix_last:
  assumes "infinity_prefix negative nsign s = Some (v, nsign + length s)"
  shows "s \<noteq> [] \<and> last s \<notin> set '' dBmV''"
proof -
  let ?n0 = "commonPrefixLenIgnoreCase s ''infinity''"
  from assms have n: "(if 3 < ?n0 \<and> ?n0 < 8 then 3 else ?n0) = length s"
    and k: "length s = 3 \<or> length s = 8"
    by (auto simp: infinity_prefix_def Let_def split: if_splits)
  have full: "?n0 = length s"
    using n cpl_le [of s "''infinity''"] by (auto split: if_splits)
  from k have ne: "s \<noteq> []" by auto
  from cpl_full [OF full ne] k
  have "fold_upper (last s) = byte CHR ''f'' \<or> fold_upper (last s) = byte CHR ''y''"
    by auto
  with fold_upper_not_unit [of "last s"] ne show ?thesis by blast
qed

lemma special_last:
  assumes "special s = Some (v, length s)"
  shows "s \<noteq> [] \<and> last s \<notin> set '' dBmV''"
proof -
  from assms obtain c cs where s: "s = c # cs"
    by (cases s) (auto simp: special_def)
  consider (sign) "c = CHR ''+'' \<or> c = CHR ''-''"
    | (inf) "c \<noteq> CHR ''+''" "c \<noteq> CHR ''-''" "c = CHR ''i'' \<or> c = CHR ''I''"
    | (nan) "c \<noteq> CHR ''+''" "c \<noteq> CHR ''-''" "c \<noteq> CHR ''i''" "c \<noteq> CHR ''I''"
        "c = CHR ''n'' \<or> c = CHR ''N''"
    using assms s by (auto simp: special_def split: if_splits)
  then show ?thesis
  proof cases
    case sign
    with assms s have "infinity_prefix (c = CHR ''-'') 1 cs = Some (v, 1 + length cs)"
      by (simp add: special_def)
    from infinity_prefix_last [OF this] s show ?thesis by simp
  next
    case inf
    with assms s have "infinity_prefix False 0 s = Some (v, 0 + length s)"
      by (auto simp: special_def)
    from infinity_prefix_last [OF this] show ?thesis .
  next
    case nan
    with assms s have full: "commonPrefixLenIgnoreCase s ''nan'' = length s" and l: "length s = 3"
      by (auto simp: special_def split: if_splits)
    have ne: "s \<noteq> []" using s by simp
    from cpl_full [OF full ne] l have "fold_upper (last s) = byte CHR ''n''" by simp
    with fold_upper_not_unit [of "last s"] ne show ?thesis by blast
  qed
qed

lemma reads_refl: "reads P cs cs"
  unfolding reads_def by (intro exI [of _ "[]"]) simp

lemma reads_Cons:
  assumes "P c" and "reads P cs rest"
  shows "reads P (c # cs) rest"
proof -
  from assms(2) obtain pre where "cs = pre @ rest" "list_all P pre"
    unfolding reads_def by blast
  with assms(1) show ?thesis
    unfolding reads_def by (intro exI [of _ "c # pre"]) simp
qed

lemma reads_last:
  assumes "reads P cs rest" and "rest \<noteq> cs"
  shows "cs \<noteq> [] \<and> (rest = [] \<longrightarrow> P (last cs)) \<and> (rest \<noteq> [] \<longrightarrow> last cs = last rest)"
proof -
  from assms obtain pre where cs: "cs = pre @ rest" and all: "list_all P pre" and pre: "pre \<noteq> []"
    unfolding reads_def by auto
  have "last pre \<in> set pre" using pre by (rule last_in_set)
  with all have "P (last pre)" by (simp add: list_all_iff)
  with cs pre show ?thesis by auto
qed

lemma digits_loop_reads:
  "digits_loop base cs st = (st', rest) \<Longrightarrow> reads (mantissa_char base) cs rest"
proof (induction cs arbitrary: st)
  case Nil
  then show ?case by (simp add: reads_refl)
next
  case (Cons c cs)
  note IH = Cons.IH
  show ?case
  proof (cases "rest = c # cs")
    case True
    then show ?thesis by (simp add: reads_refl)
  next
    case False
    with Cons.prems obtain st1 where
      "digits_loop base cs st1 = (st', rest)" "mantissa_char base c"
      by (simp add: mantissa_char_def number_end_def split: if_splits)
    with IH show ?thesis by (blast intro: reads_Cons)
  qed
qed

lemma digits_loop_sawdigits:
  "digits_loop base cs st = (st', rest) \<Longrightarrow> sawdigits st' \<Longrightarrow> \<not> sawdigits st \<Longrightarrow> rest \<noteq> cs"
proof (induction cs arbitrary: st)
  case Nil
  then show ?case by simp
next
  case (Cons c cs)
  have "length rest \<le> length cs" if "digits_loop base cs st1 = (st', rest)" for st1
    using digits_loop_reads [OF that] unfolding reads_def by auto
  with Cons.prems show ?case
    by (auto split: if_splits)
qed

lemma exp_loop_reads:
  "exp_loop cs e us = (e', us', rest) \<Longrightarrow> reads number_end cs rest"
proof (induction cs arbitrary: e us)
  case Nil
  then show ?case by (simp add: reads_refl)
next
  case (Cons c cs)
  note IH = Cons.IH
  show ?case
  proof (cases "rest = c # cs")
    case True
    then show ?thesis by (simp add: reads_refl)
  next
    case False
    with Cons.prems obtain e1 us1 where
      "exp_loop cs e1 us1 = (e', us', rest)" "number_end c"
      by (simp add: number_end_def split: if_splits)
    with IH show ?thesis by (blast intro: reads_Cons)
  qed
qed

text \<open>The last character of a number that is read to its end.\<close>

lemma read_exponent_end:
  assumes "read_exponent s st neg hex dpoint s3 = Some (m, ex, neg', hex', [])"
  shows "(s3 = [] \<and> \<not> hex) \<or> (s3 \<noteq> [] \<and> number_end (last s3))"
proof (cases s3)
  case Nil
  with assms show ?thesis by (auto simp: read_exponent_def split: if_splits)
next
  case (Cons x s4)
  have no_exp: "finish_float s st neg hex dpoint (underscores st) s3 \<noteq> Some (m, ex, neg', hex', [])"
    using finish_float_Some [of s st neg hex dpoint "underscores st" s3 m ex neg' hex' "[]"] Cons
    by auto
  from assms Cons no_exp have ex: "lower x = byte (if hex then CHR ''p'' else CHR ''e'')"
    by (auto simp: read_exponent_def split: if_splits)
  with assms Cons obtain y ys where s4: "s4 = y # ys"
    by (cases s4) (auto simp: read_exponent_def)
  define s5 where "s5 = (if y = CHR ''+'' \<or> y = CHR ''-'' then ys else s4)"
  define esign where "esign = (if y = CHR ''-'' then - 1 else (1::int))"
  have re: "read_exponent s st neg hex dpoint s3 =
      (case s5 of
         [] \<Rightarrow> None
       | d # ds \<Rightarrow>
           if \<not> is_digit d then None
           else (case exp_loop s5 0 (underscores st) of
                   (e, us, s6) \<Rightarrow> finish_float s st neg hex (dpoint + int e * esign) us s6))"
    unfolding s5_def esign_def using ex by (simp add: read_exponent_def Cons s4 Let_def)
  from assms have s5: "s5 \<noteq> []"
    unfolding re by (cases s5) auto
  obtain e us s6 where el: "exp_loop s5 0 (underscores st) = (e, us, s6)"
    by (cases "exp_loop s5 0 (underscores st)") auto
  from assms s5 el have ff: "finish_float s st neg hex (dpoint + int e * esign) us s6
      = Some (m, ex, neg', hex', [])"
    unfolding re by (cases s5) (auto split: if_splits)
  from finish_float_Some [OF ff] have "s6 = []" by simp
  with exp_loop_reads [OF el] have "reads number_end s5 []" by simp
  from reads_last [OF this] s5 have e: "number_end (last s5)" by auto
  have "last s3 = last s5"
    using s5 Cons s4 by (auto simp: s5_def split: if_splits)
  with e Cons show ?thesis by simp
qed

lemma read_digits_end:
  assumes "read_digits s neg s1 = Some (m, ex, neg', hex', [])"
  shows "s1 \<noteq> [] \<and> number_end (last s1)"
proof -
  define hex where "hex = (2 < length s1 \<and> s1 ! 0 = CHR ''0'' \<and> lower (s1 ! 1) = byte CHR ''x'')"
  define s2 where "s2 = (if hex then drop 2 s1 else s1)"
  define st0 where "st0 = \<lparr>mantissa = 0, nd = 0, dp = 0, sawdot = False, sawdigits = False,
              underscores = False\<rparr>"
  obtain st s3 where dl: "digits_loop (if hex then 16 else 10) s2 st0 = (st, s3)"
    by (cases "digits_loop (if hex then 16 else 10) s2 st0") auto
  have rd: "read_digits s neg s1 =
      (if \<not> sawdigits st then None
       else read_exponent s st neg hex
              (if hex then (if sawdot st then dp st else int (nd st)) * 4
               else (if sawdot st then dp st else int (nd st))) s3)"
    using dl unfolding read_digits_def hex_def [symmetric] Let_def s2_def [symmetric]
      st0_def [symmetric] by simp
  from assms obtain dpoint where sd: "sawdigits st"
    and re: "read_exponent s st neg hex dpoint s3 = Some (m, ex, neg', hex', [])"
    unfolding rd by (auto split: if_splits)
  have "\<not> sawdigits st0" by (simp add: st0_def)
  from digits_loop_sawdigits [OF dl sd this] have ne: "s3 \<noteq> s2" .
  from reads_last [OF digits_loop_reads [OF dl] ne]
  have s2_ne: "s2 \<noteq> []"
    and empty: "s3 = [] \<longrightarrow> mantissa_char (if hex then 16 else 10) (last s2)"
    and rest: "s3 \<noteq> [] \<longrightarrow> last s2 = last s3"
    by simp_all
  have last_s1: "s1 \<noteq> [] \<and> last s1 = last s2"
    using s2_ne by (auto simp: s2_def last_drop split: if_splits)
  from read_exponent_end [OF re] have "number_end (last s2)"
  proof
    assume a: "s3 = [] \<and> \<not> hex"
    with empty show ?thesis by (simp add: mantissa_char_def)
  next
    assume a: "s3 \<noteq> [] \<and> number_end (last s3)"
    with rest show ?thesis by simp
  qed
  with last_s1 show ?thesis by simp
qed

lemma readFloat_end:
  assumes "readFloat s = Some (m, ex, neg, hex, [])"
  shows "s \<noteq> [] \<and> number_end (last s)"
proof -
  from assms obtain c cs where s: "s = c # cs"
    by (cases s) (auto simp: readFloat_def)
  with assms have "read_digits s (c = CHR ''-'') (strip_sign s) = Some (m, ex, neg, hex, [])"
    by (simp add: readFloat_def)
  from read_digits_end [OF this]
  have ne: "strip_sign s \<noteq> []" and e: "number_end (last (strip_sign s))" by simp_all
  have "last s = last (strip_sign s)"
    using ne by (auto simp: strip_sign_def s split: if_splits)
  with e s show ?thesis by simp
qed

lemma number_end_not_unit: "number_end c \<Longrightarrow> c \<notin> set '' dBmV''"
  by (auto simp: number_end_def is_digit_def byte_def)

text \<open>No number that \<^verbatim>\<open>ParseFloat\<close> accepts ends in a character of a unit.\<close>

lemma ParseFloat_last:
  assumes "ParseFloat s = Inr v"
  shows "s \<noteq> [] \<and> last s \<notin> set '' dBmV''"
proof (cases "special s")
  case (Some r)
  with assms have "special s = Some (v, length s)"
    by (cases r) (auto simp: ParseFloat_def split: if_splits)
  then show ?thesis by (rule special_last)
next
  case None
  with assms obtain m ex neg hex where "readFloat s = Some (m, ex, neg, hex, [])"
    by (auto simp: ParseFloat_def split: option.splits prod.splits if_splits)
  from readFloat_end [OF this] number_end_not_unit show ?thesis by blast
qed

text \<open>A cell that is a number followed by its unit gives the number.\<close>

lemma ScrapeUnitValue_number:
  assumes p: "ParseFloat number = Inr v"
    and s: "suffix = '' dBmV'' \<or> suffix = '' dB'' \<or> suffix = []"
    and c: "ScrapeColStr element child = number @ suffix"
  shows "ScrapeUnitValue element child suffix = Inr v"
proof -
  from ParseFloat_last [OF p] have l: "last number \<notin> set '' dBmV''" by simp
  have "TrimRight (number @ suffix) suffix = number"
  proof (rule TrimRight_append_suffix)
    show "number = [] \<or> last number \<notin> set suffix" using l s by auto
    show "set suffix \<subseteq> set suffix" by simp
  qed
  with p c show ?thesis by (simp add: ScrapeUnitValue_ParseFloat)
qed

text \<open>
  Claim C2, as the code has it. For a cell that is a number \<^verbatim>\<open>ParseFloat\<close> accepts
  followed by the unit \<^verbatim>\<open>" dBmV"\<close>, \<^verbatim>\<open>" dB"\<close> or nothing, \<^verbatim>\<open>ScrapeUnitValue\<close> with
  that unit returns the number. In general it returns what \<^verbatim>\<open>ParseFloat\<close> makes of
  the cell without its trailing characters that occur in the unit: that value,
  or that error and never a default. The ending of the cell is not compared with
  the unit.
\<close>

theorem unit_value:
  "(ParseFloat number = Inr v \<and> (suffix = '' dBmV'' \<or> suffix = '' dB'' \<or> suffix = [])
      \<and> ScrapeColStr element child = number @ suffix
    \<longrightarrow> ScrapeUnitValue element child suffix = Inr v)
   \<and> ScrapeUnitValue element child trim
       = ParseFloat (rev (dropWhile (\<lambda>c. c \<in> set trim) (rev (ScrapeColStr element child))))
   \<and> ((\<exists>err. ScrapeUnitValue element child trim = Inl err) \<longleftrightarrow>
        (\<exists>err. ParseFloat (TrimRight (ScrapeColStr element child) trim) = Inl err))"
proof -
  have 1: "ScrapeUnitValue element child suffix = Inr v"
    if p: "ParseFloat number = Inr v"
      and s: "suffix = '' dBmV'' \<or> suffix = '' dB'' \<or> suffix = []"
      and c: "ScrapeColStr element child = number @ suffix"
  proof -
    from ParseFloat_last [OF p] have l: "last number \<notin> set '' dBmV''" by simp
    have "TrimRight (number @ suffix) suffix = number"
    proof (rule TrimRight_append_suffix)
      show "number = [] \<or> last number \<notin> set suffix" using l s by auto
      show "set suffix \<subseteq> set suffix" by simp
    qed
    with p c show ?thesis by (simp add: ScrapeUnitValue_ParseFloat)
  qed
  have 2: "ScrapeUnitValue element child trim
       = ParseFloat (rev (dropWhile (\<lambda>c. c \<in> set trim) (rev (ScrapeColStr element child))))"
    by (simp add: ScrapeUnitValue_ParseFloat TrimRight_def)
  have 3: "(\<exists>err. ScrapeUnitValue element child trim = Inl err) \<longleftrightarrow>
        (\<exists>err. ParseFloat (TrimRight (ScrapeColStr element child) trim) = Inl err)"
    by (simp add: ScrapeUnitValue_ParseFloat)
  from 1 2 3 show ?thesis by blast
qed

text \<open>
  Claim C2 as stated fails: a cell that ends in another unit, or in no unit at
  all, is not an error.
\<close>

theorem unit_value_counterexample:
  "ScrapeUnitValue [''5 dB''] 1 '' dBmV'' = Inr (Finite 5)
   \<and> ScrapeUnitValue [''5''] 1 '' dBmV'' = Inr (Finite 5)
   \<and> ScrapeUnitValue [''5Vm Bd''] 1 '' dBmV'' = Inr (Finite 5)"
  by (simp add: cell_eval float_eval)

theorem unit_value_witness:
  "ParseFloat ''4.5'' = Inr (Finite (9 / 2))
   \<and> ScrapeUnitValue [''4.5 dBmV''] 1 '' dBmV'' = Inr (Finite (9 / 2))
   \<and> ScrapeUnitValue [''4.5 dB''] 1 '' dB'' = Inr (Finite (9 / 2))
   \<and> ScrapeUnitValue [''4.5''] 1 [] = Inr (Finite (9 / 2))
   \<and> ParseFloat ''n/a'' = Inl (NumError ''ParseFloat'' ''n/a'' ErrSyntax)
   \<and> ScrapeUnitValue [''n/a dBmV''] 1 '' dBmV'' = Inl (NumError ''ParseFloat'' ''n/a'' ErrSyntax)"
proof -
  have p: "ParseFloat ''4.5'' = Inr (Finite (9 / 2))"
    "ParseFloat ''n/a'' = Inl (NumError ''ParseFloat'' ''n/a'' ErrSyntax)"
    by (simp_all add: float_eval)
  have c: "ScrapeColStr [s] 1 = s" for s
    by (simp add: ScrapeColStr_def)
  have 1: "ScrapeUnitValue [''4.5 dBmV''] 1 '' dBmV'' = Inr (Finite (9 / 2))"
    using unit_value [where number = "''4.5''" and v = "Finite (9 / 2)" and suffix = "'' dBmV''"
        and element = "[''4.5 dBmV'']" and child = 1] p(1)
    by (simp only: c) simp
  have 2: "ScrapeUnitValue [''4.5 dB''] 1 '' dB'' = Inr (Finite (9 / 2))"
    using unit_value [where number = "''4.5''" and v = "Finite (9 / 2)" and suffix = "'' dB''"
        and element = "[''4.5 dB'']" and child = 1] p(1)
    by (simp only: c) simp
  have 3: "ScrapeUnitValue [''4.5''] 1 [] = Inr (Finite (9 / 2))"
    using unit_value [where number = "''4.5''" and v = "Finite (9 / 2)" and suffix = "[]"
        and element = "[''4.5'']" and child = 1] p(1)
    by (simp only: c) simp
  have 4: "ScrapeUnitValue [''n/a dBmV''] 1 '' dBmV'' = Inl (NumError ''ParseFloat'' ''n/a'' ErrSyntax)"
    using unit_value [where element = "[''n/a dBmV'']" and child = 1 and trim = "'' dBmV''"] p(2)
    by (simp only: c) simp
  from p 1 2 3 4 show ?thesis by blast
qed

subsection \<open>Columns\<close>

lemma downstream_row_record:
  assumes "ScrapeColStr element 1 \<noteq> ''Channel ID''"
    and "ScrapeUnitValue element 5 '' dBmV'' = Inr p"
    and "ScrapeUnitValue element 6 '' dB'' = Inr s"
    and "ScrapeUnitValue element 7 [] = Inr c"
    and "ScrapeUnitValue element 8 [] = Inr u"
  shows "ScrapeDownstreamTableRow element = Inr
     \<lparr>DownstreamChannel.ChannelID = ScrapeColStr element 1,
      DownstreamChannel.LockStatus =
        (if ScrapeColStr element 2 = ''Locked'' then Finite 1 else Finite 0),
      Modulation = ScrapeColStr element 3,
      DownstreamChannel.Frequency = ScrapeColStr element 4,
      DownstreamChannel.Power = p, SNR = s, CorrectedErrors = c, UncorrectableErrors = u\<rparr>"
  using assms by (simp add: ScrapeDownstreamTableRow_def)

lemma downstream_row_first_error:
  assumes "ScrapeColStr element 1 \<noteq> ''Channel ID''"
  shows "ScrapeUnitValue element 5 '' dBmV'' = Inl err \<Longrightarrow> ScrapeDownstreamTableRow element = Inl err"
    and "ScrapeUnitValue element 5 '' dBmV'' = Inr p \<Longrightarrow> ScrapeUnitValue element 6 '' dB'' = Inl err
         \<Longrightarrow> ScrapeDownstreamTableRow element = Inl err"
    and "ScrapeUnitValue element 5 '' dBmV'' = Inr p \<Longrightarrow> ScrapeUnitValue element 6 '' dB'' = Inr s
         \<Longrightarrow> ScrapeUnitValue element 7 [] = Inl err \<Longrightarrow> ScrapeDownstreamTableRow element = Inl err"
    and "ScrapeUnitValue element 5 '' dBmV'' = Inr p \<Longrightarrow> ScrapeUnitValue element 6 '' dB'' = Inr s
         \<Longrightarrow> ScrapeUnitValue element 7 [] = Inr c \<Longrightarrow> ScrapeUnitValue element 8 [] = Inl err
         \<Longrightarrow> ScrapeDownstreamTableRow element = Inl err"
  using assms by (simp_all add: ScrapeDownstreamTableRow_def)

text \<open>
  Claim C8. The record of a downstream row takes each field from a fixed column:
  the channel identifier from column 1, the lock status from column 2 (1 for the
  text \<^verbatim>\<open>Locked\<close>, 0 for any other), the modulation from column 3, the frequency
  from column 4, the power from column 5 trimmed with \<^verbatim>\<open>" dBmV"\<close>, the SNR from
  column 6 trimmed with \<^verbatim>\<open>" dB"\<close>, and the corrected and uncorrectable counts from
  columns 7 and 8 with nothing trimmed. Every record that the row parser returns
  is made so, and every row that is not the header row and whose four numeric
  cells parse has such a record: a row whose cells are numbers followed by their
  units yields the record with those numbers. A row with a numeric cell that
  does not parse yields the error of the first such cell, in the order 5, 6, 7,
  8.
\<close>

theorem downstream_columns:
  "(ScrapeDownstreamTableRow element = Inr ch \<longrightarrow>
       DownstreamChannel.ChannelID ch = ScrapeColStr element 1
     \<and> DownstreamChannel.LockStatus ch
         = (if ScrapeColStr element 2 = ''Locked'' then Finite 1 else Finite 0)
     \<and> Modulation ch = ScrapeColStr element 3
     \<and> DownstreamChannel.Frequency ch = ScrapeColStr element 4
     \<and> ScrapeUnitValue element 5 '' dBmV'' = Inr (DownstreamChannel.Power ch)
     \<and> ScrapeUnitValue element 6 '' dB'' = Inr (SNR ch)
     \<and> ScrapeUnitValue element 7 [] = Inr (CorrectedErrors ch)
     \<and> ScrapeUnitValue element 8 [] = Inr (UncorrectableErrors ch))
   \<and> (ScrapeColStr element 1 \<noteq> ''Channel ID''
       \<and> ScrapeUnitValue element 5 '' dBmV'' = Inr p
       \<and> ScrapeUnitValue element 6 '' dB'' = Inr s
       \<and> ScrapeUnitValue element 7 [] = Inr c
       \<and> ScrapeUnitValue element 8 [] = Inr u
      \<longrightarrow> ScrapeDownstreamTableRow element = Inr
            \<lparr>DownstreamChannel.ChannelID = ScrapeColStr element 1,
             DownstreamChannel.LockStatus =
               (if ScrapeColStr element 2 = ''Locked'' then Finite 1 else Finite 0),
             Modulation = ScrapeColStr element 3,
             DownstreamChannel.Frequency = ScrapeColStr element 4,
             DownstreamChannel.Power = p, SNR = s, CorrectedErrors = c,
             UncorrectableErrors = u\<rparr>)
   \<and> (ScrapeColStr element 1 \<noteq> ''Channel ID''
       \<and> ScrapeColStr element 5 = ptext @ '' dBmV'' \<and> ParseFloat ptext = Inr p
       \<and> ScrapeColStr element 6 = stext @ '' dB'' \<and> ParseFloat stext = Inr s
       \<and> ParseFloat (ScrapeColStr element 7) = Inr c
       \<and> ParseFloat (ScrapeColStr element 8) = Inr u
      \<longrightarrow> ScrapeDownstreamTableRow element = Inr
            \<lparr>DownstreamChannel.ChannelID = ScrapeColStr element 1,
             DownstreamChannel.LockStatus =
               (if ScrapeColStr element 2 = ''Locked'' then Finite 1 else Finite 0),
             Modulation = ScrapeColStr element 3,
             DownstreamChannel.Frequency = ScrapeColStr element 4,
             DownstreamChannel.Power = p, SNR = s, CorrectedErrors = c,
             UncorrectableErrors = u\<rparr>)
   \<and> (ScrapeColStr element 1 \<noteq> ''Channel ID'' \<longrightarrow>
        (ScrapeUnitValue element 5 '' dBmV'' = Inl err
           \<longrightarrow> ScrapeDownstreamTableRow element = Inl err)
      \<and> (ScrapeUnitValue element 5 '' dBmV'' = Inr p \<and> ScrapeUnitValue element 6 '' dB'' = Inl err
           \<longrightarrow> ScrapeDownstreamTableRow element = Inl err)
      \<and> (ScrapeUnitValue element 5 '' dBmV'' = Inr p \<and> ScrapeUnitValue element 6 '' dB'' = Inr s
           \<and> ScrapeUnitValue element 7 [] = Inl err
           \<longrightarrow> ScrapeDownstreamTableRow element = Inl err)
      \<and> (ScrapeUnitValue element 5 '' dBmV'' = Inr p \<and> ScrapeUnitValue element 6 '' dB'' = Inr s
           \<and> ScrapeUnitValue element 7 [] = Inr c \<and> ScrapeUnitValue element 8 [] = Inl err
           \<longrightarrow> ScrapeDownstreamTableRow element = Inl err))"
proof -
  have 1: "DownstreamChannel.ChannelID ch = ScrapeColStr element 1
     \<and> DownstreamChannel.LockStatus ch
         = (if ScrapeColStr element 2 = ''Locked'' then Finite 1 else Finite 0)
     \<and> Modulation ch = ScrapeColStr element 3
     \<and> DownstreamChannel.Frequency ch = ScrapeColStr element 4
     \<and> ScrapeUnitValue element 5 '' dBmV'' = Inr (DownstreamChannel.Power ch)
     \<and> ScrapeUnitValue element 6 '' dB'' = Inr (SNR ch)
     \<and> ScrapeUnitValue element 7 [] = Inr (CorrectedErrors ch)
     \<and> ScrapeUnitValue element 8 [] = Inr (UncorrectableErrors ch)"
    if "ScrapeDownstreamTableRow element = Inr ch"
    using downstream_row_fields [OF that] by simp
  have 3: "ScrapeDownstreamTableRow element = Inr
            \<lparr>DownstreamChannel.ChannelID = ScrapeColStr element 1,
             DownstreamChannel.LockStatus =
               (if ScrapeColStr element 2 = ''Locked'' then Finite 1 else Finite 0),
             Modulation = ScrapeColStr element 3,
             DownstreamChannel.Frequency = ScrapeColStr element 4,
             DownstreamChannel.Power = p, SNR = s, CorrectedErrors = c,
             UncorrectableErrors = u\<rparr>"
    if h: "ScrapeColStr element 1 \<noteq> ''Channel ID''"
      and c5: "ScrapeColStr element 5 = ptext @ '' dBmV''" and p5: "ParseFloat ptext = Inr p"
      and c6: "ScrapeColStr element 6 = stext @ '' dB''" and p6: "ParseFloat stext = Inr s"
      and p7: "ParseFloat (ScrapeColStr element 7) = Inr c"
      and p8: "ParseFloat (ScrapeColStr element 8) = Inr u"
  proof (rule downstream_row_record [OF h])
    show "ScrapeUnitValue element 5 '' dBmV'' = Inr p"
      using p5 _ c5 by (rule ScrapeUnitValue_number) simp
    show "ScrapeUnitValue element 6 '' dB'' = Inr s"
      using p6 _ c6 by (rule ScrapeUnitValue_number) simp
    show "ScrapeUnitValue element 7 [] = Inr c"
      using p7 by (simp add: ScrapeUnitValue_bare)
    show "ScrapeUnitValue element 8 [] = Inr u"
      using p8 by (simp add: ScrapeUnitValue_bare)
  qed
  have 4: "(ScrapeUnitValue element 5 '' dBmV'' = Inl err
           \<longrightarrow> ScrapeDownstreamTableRow element = Inl err)
      \<and> (ScrapeUnitValue element 5 '' dBmV'' = Inr p \<and> ScrapeUnitValue element 6 '' dB'' = Inl err
           \<longrightarrow> ScrapeDownstreamTableRow element = Inl err)
      \<and> (ScrapeUnitValue element 5 '' dBmV'' = Inr p \<and> ScrapeUnitValue element 6 '' dB'' = Inr s
           \<and> ScrapeUnitValue element 7 [] = Inl err
           \<longrightarrow> ScrapeDownstreamTableRow element = Inl err)
      \<and> (ScrapeUnitValue element 5 '' dBmV'' = Inr p \<and> ScrapeUnitValue element 6 '' dB'' = Inr s
           \<and> ScrapeUnitValue element 7 [] = Inr c \<and> ScrapeUnitValue element 8 [] = Inl err
           \<longrightarrow> ScrapeDownstreamTableRow element = Inl err)"
    if "ScrapeColStr element 1 \<noteq> ''Channel ID''"
    using downstream_row_first_error [OF that] by blast
  from 1 downstream_row_record [of element p s c u] 3 4
  show ?thesis by blast
qed

theorem downstream_columns_witness:
  "ScrapeDownstreamTableRow downstream_row_1 = Inr
        \<lparr>DownstreamChannel.ChannelID = ''1'', LockStatus = Finite 1, Modulation = ''QAM256'',
         Frequency = ''495000000 Hz'', Power = Finite 4, SNR = Finite 41,
         CorrectedErrors = Finite 12, UncorrectableErrors = Finite 0\<rparr>
   \<and> downstream_row_1 = [''1'', ''Locked'', ''QAM256'', ''495000000 Hz'', ''4.0'' @ '' dBmV'',
        ''41.0'' @ '' dB'', ''12'', ''0'']
   \<and> ParseFloat ''4.0'' = Inr (Finite 4) \<and> ParseFloat ''41.0'' = Inr (Finite 41)
   \<and> ParseFloat ''12'' = Inr (Finite 12) \<and> ParseFloat ''0'' = Inr (Finite 0)
   \<and> ScrapeUnitValue downstream_row_1 5 '' dBmV'' = Inr (Finite 4)
   \<and> ScrapeUnitValue downstream_row_1 6 '' dB'' = Inr (Finite 41)
   \<and> ScrapeUnitValue downstream_row_1 7 [] = Inr (Finite 12)
   \<and> ScrapeUnitValue downstream_row_1 8 [] = Inr (Finite 0)
   \<and> ScrapeColStr downstream_row_bad 5 = ''n/a''
   \<and> ScrapeDownstreamTableRow downstream_row_bad = Inl (NumError ''ParseFloat'' ''n/a'' ErrSyntax)"
proof -
  let ?ch = "\<lparr>DownstreamChannel.ChannelID = ''1'', LockStatus = Finite 1, Modulation = ''QAM256'',
         Frequency = ''495000000 Hz'', Power = Finite 4, SNR = Finite 41,
         CorrectedErrors = Finite 12, UncorrectableErrors = Finite 0\<rparr>"
  have cells: "ScrapeColStr downstream_row_1 1 = ''1''" "ScrapeColStr downstream_row_1 2 = ''Locked''"
    "ScrapeColStr downstream_row_1 3 = ''QAM256''" "ScrapeColStr downstream_row_1 4 = ''495000000 Hz''"
    "ScrapeColStr downstream_row_1 5 = ''4.0'' @ '' dBmV''"
    "ScrapeColStr downstream_row_1 6 = ''41.0'' @ '' dB''"
    "ScrapeColStr downstream_row_1 7 = ''12''" "ScrapeColStr downstream_row_1 8 = ''0''"
    by (simp_all add: ScrapeColStr_def downstream_row_1_def)
  have pf: "ParseFloat ''4.0'' = Inr (Finite 4)" "ParseFloat ''41.0'' = Inr (Finite 41)"
    "ParseFloat ''12'' = Inr (Finite 12)" "ParseFloat ''0'' = Inr (Finite 0)"
    by (simp_all add: float_eval)
  have hdr: "ScrapeColStr downstream_row_1 1 \<noteq> ''Channel ID''"
    by (simp add: ScrapeColStr_def downstream_row_1_def)
  note T = downstream_columns [where element = downstream_row_1 and ptext = "''4.0''"
      and stext = "''41.0''" and p = "Finite 4" and s = "Finite 41" and c = "Finite 12"
      and u = "Finite 0"]
  have "ScrapeDownstreamTableRow downstream_row_1 = Inr
            \<lparr>DownstreamChannel.ChannelID = ScrapeColStr downstream_row_1 1,
             DownstreamChannel.LockStatus =
               (if ScrapeColStr downstream_row_1 2 = ''Locked'' then Finite 1 else Finite 0),
             Modulation = ScrapeColStr downstream_row_1 3,
             DownstreamChannel.Frequency = ScrapeColStr downstream_row_1 4,
             DownstreamChannel.Power = Finite 4, SNR = Finite 41, CorrectedErrors = Finite 12,
             UncorrectableErrors = Finite 0\<rparr>"
  proof -
    have "ScrapeColStr downstream_row_1 1 \<noteq> ''Channel ID''
       \<and> ScrapeColStr downstream_row_1 5 = ''4.0'' @ '' dBmV'' \<and> ParseFloat ''4.0'' = Inr (Finite 4)
       \<and> ScrapeColStr downstream_row_1 6 = ''41.0'' @ '' dB'' \<and> ParseFloat ''41.0'' = Inr (Finite 41)
       \<and> ParseFloat (ScrapeColStr downstream_row_1 7) = Inr (Finite 12)
       \<and> ParseFloat (ScrapeColStr downstream_row_1 8) = Inr (Finite 0)"
      using hdr cells(5,6) pf by (simp only: cells(7,8)) blast
    with T show ?thesis by blast
  qed
  then have r: "ScrapeDownstreamTableRow downstream_row_1 = Inr ?ch"
    by (simp only: cells) simp
  from downstream_columns [where element = downstream_row_1 and ch = ?ch] r
  have uv: "ScrapeUnitValue downstream_row_1 5 '' dBmV'' = Inr (DownstreamChannel.Power ?ch)
      \<and> ScrapeUnitValue downstream_row_1 6 '' dB'' = Inr (SNR ?ch)
      \<and> ScrapeUnitValue downstream_row_1 7 [] = Inr (CorrectedErrors ?ch)
      \<and> ScrapeUnitValue downstream_row_1 8 [] = Inr (UncorrectableErrors ?ch)"
    by blast
  have row: "downstream_row_1 = [''1'', ''Locked'', ''QAM256'', ''495000000 Hz'', ''4.0'' @ '' dBmV'',
        ''41.0'' @ '' dB'', ''12'', ''0'']"
    by (simp add: downstream_row_1_def)
  have bad5: "ScrapeColStr downstream_row_bad 5 = ''n/a''"
    by (simp add: ScrapeColStr_def downstream_row_bad_def)
  have bad: "ScrapeDownstreamTableRow downstream_row_bad = Inl (NumError ''ParseFloat'' ''n/a'' ErrSyntax)"
    using downstream_columns [where element = downstream_row_bad
        and err = "NumError ''ParseFloat'' ''n/a'' ErrSyntax"] ex_bad_rows(1,3)
    by blast
  from r row pf uv bad5 bad show ?thesis by simp
qed

text \<open>The upstream row parser, in the same way.\<close>

lemma upstream_row_record:
  assumes "ScrapeColStr element 1 \<noteq> ''Channel''" and "ScrapeColStr element 1 \<noteq> []"
    and "ScrapeUnitValue element 7 '' dBmV'' = Inr p"
  shows "ScrapeUpstreamTableRow element = Inr
     \<lparr>Channel = ScrapeColStr element 1,
      UpstreamChannel.ChannelID = ScrapeColStr element 2,
      UpstreamChannel.LockStatus =
        (if ScrapeColStr element 3 = ''Locked'' then Finite 1 else Finite 0),
      USChannelType = ScrapeColStr element 4,
      UpstreamChannel.Frequency = ScrapeColStr element 5,
      Width = ScrapeColStr element 6,
      UpstreamChannel.Power = p\<rparr>"
  using assms by (simp add: ScrapeUpstreamTableRow_def)

lemma upstream_row_error:
  assumes "ScrapeColStr element 1 \<noteq> ''Channel''" and "ScrapeColStr element 1 \<noteq> []"
    and "ScrapeUnitValue element 7 '' dBmV'' = Inl err"
  shows "ScrapeUpstreamTableRow element = Inl err"
  using assms by (simp add: ScrapeUpstreamTableRow_def)

end
